theory Spec2Isabelle
  imports Main "HOL-Library.Sublist"
begin

section \<open>Python values and filter objects\<close>

text \<open>
  The values that travel through \<^verbatim>\<open>webassets/merge.py\<close>: hunk contents are
  \<^verbatim>\<open>str\<close> or \<^verbatim>\<open>bytes\<close>, a cache lookup may also answer \<^verbatim>\<open>None\<close>,
  \<^verbatim>\<open>False\<close> or a tuple (the stored validators of a URL), and debug levels are
  \<^verbatim>\<open>False\<close>, \<^verbatim>\<open>True\<close> or \<^verbatim>\<open>'merge'\<close>.
\<close>

datatype pyval =
    VNone
  | VBool bool
  | VInt int
  | VStr string
  | VBytes string
  | VTuple "pyval list"

text \<open>Truth value of a Python object, as \<^verbatim>\<open>if x:\<close> reads it.\<close>

fun truthy :: "pyval \<Rightarrow> bool" where
  "truthy VNone = False"
| "truthy (VBool b) = b"
| "truthy (VInt i) = (i \<noteq> 0)"
| "truthy (VStr s) = (s \<noteq> [])"
| "truthy (VBytes b) = (b \<noteq> [])"
| "truthy (VTuple vs) = (vs \<noteq> [])"

text \<open>
  \<^verbatim>\<open>==\<close> on values: \<^verbatim>\<open>False\<close> and \<^verbatim>\<open>True\<close> are equal to the integers 0 and 1,
  tuples are equal item by item, and values of different types are not equal.
\<close>

fun as_int :: "pyval \<Rightarrow> int option" where
  "as_int (VBool b) = Some (if b then 1 else 0)"
| "as_int (VInt i) = Some i"
| "as_int v = None"

fun py_eq :: "pyval \<Rightarrow> pyval \<Rightarrow> bool" where
  "py_eq VNone VNone = True"
| "py_eq (VStr a) (VStr b) = (a = b)"
| "py_eq (VBytes a) (VBytes b) = (a = b)"
| "py_eq (VTuple xs) (VTuple ys) = list_all2 py_eq xs ys"
| "py_eq a b = (case (as_int a, as_int b) of (Some i, Some j) \<Rightarrow> i = j | _ \<Rightarrow> False)"

text \<open>
  An \<^verbatim>\<open>io.StringIO\<close> or \<^verbatim>\<open>io.BytesIO\<close> positioned at its start, with its
  content.
\<close>

datatype stream = StringIO string | BytesIO string

type_synonym options = "string \<rightharpoonup> pyval"

text \<open>
  A filter method is known to this module only through what it leaves in the output
  stream it is handed: \<open>Inr s\<close> is the text (or the bytes) written to \<^verbatim>\<open>out\<close>,
  \<open>Inl msg\<close> an exception raised by the method. The stream transforms
  (\<^verbatim>\<open>input\<close>, \<^verbatim>\<open>output\<close>) receive the keyword options and the input stream, the
  producers (\<^verbatim>\<open>open\<close>, \<^verbatim>\<open>concat\<close>) the keyword options and the positional
  arguments.
\<close>

type_synonym transform_method = "options \<Rightarrow> stream \<Rightarrow> string + string"

type_synonym producer_method = "options \<Rightarrow> pyval list \<Rightarrow> string + string"

text \<open>
  A filter object. \<open>oid\<close> is the identity of the object (what \<^verbatim>\<open>is\<close> compares), so
  that equality of two records is identity of the two objects. \<open>transforms f t\<close> and
  \<open>funcs f t\<close> are \<^verbatim>\<open>getattr(f, t, None)\<close> for the transform names and for the
  producer names.
\<close>

record filter_obj =
  oid :: nat
  name :: string
  max_debug_level :: pyval
  transforms :: "string \<Rightarrow> transform_method option"
  funcs :: "string \<Rightarrow> producer_method option"

text \<open>
  What the module takes from the interpreter and from the rest of the package:
  the built-in \<^verbatim>\<open>hash\<close> on values and how a tuple's hash is made of its items'
  hashes, \<^verbatim>\<open>bytes.decode()\<close> (\<open>None\<close> when it raises), the equality and the hash
  of the \<^verbatim>\<open>Filter\<close> base class, and \<^verbatim>\<open>utils.cmp_debug_levels\<close>. They are
  parameters: every theorem below holds for all of them.
\<close>

record runtime =
  hash_of :: "pyval \<Rightarrow> int"
  tuple_hash :: "int list \<Rightarrow> int"
  decode :: "string \<Rightarrow> string option"
  filter_eq :: "filter_obj \<Rightarrow> filter_obj \<Rightarrow> bool"
  filter_hash :: "filter_obj \<Rightarrow> int"
  cmp_debug_levels :: "pyval \<Rightarrow> pyval \<Rightarrow> int"

section \<open>Filter-chain composition\<close>

text \<open>
  \<^verbatim>\<open>x in xs\<close> on a list: some item is the object \<open>x\<close> itself or compares equal
  to it.
\<close>

fun py_in :: "('a \<Rightarrow> 'a \<Rightarrow> bool) \<Rightarrow> 'a \<Rightarrow> 'a list \<Rightarrow> bool" where
  "py_in eq x [] = False"
| "py_in eq x (e # es) = (if x = e \<or> eq x e then True else py_in eq x es)"

text \<open>
  The loop of \<^verbatim>\<open>merge_filters\<close>:
  \<^verbatim>\<open>for f in filters2: if not f in result: result.append(f)\<close>.
\<close>

fun merge_filters_loop ::
  "runtime \<Rightarrow> filter_obj list \<Rightarrow> filter_obj list \<Rightarrow> filter_obj list" where
  "merge_filters_loop rt result [] = result"
| "merge_filters_loop rt result (f # fs) =
     merge_filters_loop rt (if \<not> py_in (filter_eq rt) f result then result @ [f] else result) fs"

text \<open>
  \<^verbatim>\<open>merge_filters(filters1, filters2)\<close>. The result starts as a copy of
  \<open>filters1\<close>; the loop runs only when \<open>filters2\<close> is truthy (not empty).
\<close>

definition merge_filters ::
  "runtime \<Rightarrow> filter_obj list \<Rightarrow> filter_obj list \<Rightarrow> filter_obj list" where
  "merge_filters rt filters1 filters2 =
     (let result = filters1
      in if filters2 \<noteq> [] then merge_filters_loop rt result filters2 else result)"

text \<open>
  \<^verbatim>\<open>select_filters(filters, level)\<close>: the list comprehension, one item at a time.
\<close>

fun select_filters :: "runtime \<Rightarrow> filter_obj list \<Rightarrow> pyval \<Rightarrow> filter_obj list" where
  "select_filters rt [] level = []"
| "select_filters rt (f # fs) level =
     (if max_debug_level f = VNone \<or> cmp_debug_levels rt level (max_debug_level f) \<le> 0
      then f # select_filters rt fs level
      else select_filters rt fs level)"

section \<open>Exceptions, the outside world and effects\<close>

text \<open>
  The exceptions that can leave the module's functions. \<open>FilterRaised\<close> is whatever a
  filter method raised; \<open>MoreThanOneFilterError\<close> carries its message and its
  \<^verbatim>\<open>filters\<close> attribute.
\<close>

datatype exn =
    AssertionError
  | IndexError
  | IOError
  | UnicodeDecodeError
  | TypeError
  | ValueError
  | AttributeError
  | HTTPError nat
  | URLError
  | FilterRaised string
  | NoFilters
  | MoreThanOneFilterError string "filter_obj list"

text \<open>
  \<open>UrlHunk\<close> takes an optional environment and reads only its \<^verbatim>\<open>cache\<close>
  attribute: \<open>env_has_cache\<close> says whether that attribute is a (truthy) cache object.
\<close>

datatype environment = Environment (env_has_cache: bool)

text \<open>
  The three hunk classes. \<open>MemoryHunk\<close> holds either a value or an object with a
  \<^verbatim>\<open>read\<close> method (a reference to a stream of the world), and its list of files.
  A \<open>UrlHunk\<close> is mutable (it memoizes in \<^verbatim>\<open>self._data\<close>), so it carries the
  identity of the object.
\<close>

datatype memory_data = Data pyval | Reader nat

datatype hunk =
    FileHunk string
  | UrlHunk nat string "environment option"
  | MemoryHunk memory_data "string list"

text \<open>
  A request as \<^verbatim>\<open>urllib.request.urlopen\<close> receives it, and the response it
  returns. \<open>headers_getheader\<close> is the attribute \<^verbatim>\<open>getheader\<close> of
  \<^verbatim>\<open>response.headers\<close>: \<open>None\<close> when the headers object has no such attribute (looking
  it up raises \<^verbatim>\<open>AttributeError\<close>), otherwise the function from a header's name to
  its value or \<open>VNone\<close>.
\<close>

record request =
  req_url :: string
  req_headers :: "(string \<times> pyval) list"

record response =
  body :: string
  headers_getheader :: "(string \<Rightarrow> pyval) option"

text \<open>
  The cache keys of \<open>FilterTool\<close>: \<^verbatim>\<open>("hunk", hunk, tuple(filters), type)\<close> in
  \<^verbatim>\<open>apply\<close> and \<^verbatim>\<open>("hunk", args, tuple(filters), type, cache_key or [])\<close> in
  \<^verbatim>\<open>apply_func\<close>. The events are the calls that leave the module: to the cache of
  the tool and to the methods of the filters.
\<close>

datatype key =
    HunkKey hunk "filter_obj list" string
  | FuncKey "pyval list" "filter_obj list" string "pyval list"

datatype event =
    CacheGet key
  | CacheSet key pyval
  | FilterCall filter_obj string

text \<open>
  Everything the functions read and change: the files of the file system (their
  bytes), the unread rest of every stream object, the \<^verbatim>\<open>_data\<close> attribute of every
  \<open>UrlHunk\<close> object that has one, the answer of the network to a request, the cache of
  the environment (keyed by the tuples \<open>UrlHunk\<close> builds), the state \<open>store\<close> of the
  cache object given to \<open>FilterTool\<close>, and the trace of events so far.
\<close>

record 'c world =
  files :: "string \<rightharpoonup> string"
  readers :: "nat \<Rightarrow> stream"
  url_memo :: "nat \<rightharpoonup> pyval"
  urlopen :: "request \<Rightarrow> exn + response"
  env_cache :: "pyval \<rightharpoonup> pyval"
  store :: 'c
  trace :: "event list"

text \<open>
  A computation returns a value or raises, and leaves a world behind in both cases (an
  exception undoes nothing).
\<close>

type_synonym ('a, 'c) action = "'c world \<Rightarrow> (exn + 'a) \<times> 'c world"

definition ok :: "'a \<Rightarrow> ('a, 'c) action" where
  "ok x = (\<lambda>w. (Inr x, w))"

definition raise :: "exn \<Rightarrow> ('a, 'c) action" where
  "raise e = (\<lambda>w. (Inl e, w))"

definition and_then :: "('a, 'c) action \<Rightarrow> ('a \<Rightarrow> ('b, 'c) action) \<Rightarrow> ('b, 'c) action" where
  "and_then m f = (\<lambda>w. case m w of (Inl e, w') \<Rightarrow> (Inl e, w') | (Inr x, w') \<Rightarrow> f x w')"

section \<open>Hunks\<close>

text \<open>\<^verbatim>\<open>stream.read()\<close>: the unread rest, leaving nothing unread.\<close>

fun read_stream :: "stream \<Rightarrow> pyval \<times> stream" where
  "read_stream (StringIO s) = (VStr s, StringIO [])"
| "read_stream (BytesIO b) = (VBytes b, BytesIO [])"

text \<open>
  \<^verbatim>\<open>etag, lmod = headers\<close>: unpacking a value into two. A tuple, a string and a
  bytes object of length two unpack; another length is a \<^verbatim>\<open>ValueError\<close>, a value
  that cannot be iterated a \<^verbatim>\<open>TypeError\<close>.
\<close>

fun unpack2 :: "pyval \<Rightarrow> exn + pyval \<times> pyval" where
  "unpack2 (VTuple [a, b]) = Inr (a, b)"
| "unpack2 (VTuple vs) = Inl ValueError"
| "unpack2 (VStr [a, b]) = Inr (VStr [a], VStr [b])"
| "unpack2 (VStr s) = Inl ValueError"
| "unpack2 (VBytes [a, b]) = Inr (VInt (of_char a), VInt (of_char b))"
| "unpack2 (VBytes s) = Inl ValueError"
| "unpack2 v = Inl TypeError"

definition headers_key :: "string \<Rightarrow> pyval" where
  "headers_key url = VTuple [VStr ''url'', VStr ''headers'', VStr url]"

definition contents_key :: "string \<Rightarrow> pyval" where
  "contents_key url = VTuple [VStr ''url'', VStr ''contents'', VStr url]"

text \<open>
  Modelled from the spec: the cache object of the environment
  (\<^verbatim>\<open>webassets/cache.py\<close> is not among the sources), "an opaque key to bytes map",
  \<^verbatim>\<open>get(key) -> bytes | absent\<close> and \<^verbatim>\<open>set(key, bytes)\<close>; absent is \<^verbatim>\<open>None\<close>.
\<close>

definition env_cache_get :: "pyval \<Rightarrow> (pyval, 'c) action" where
  "env_cache_get k = (\<lambda>w. (Inr (case env_cache w k of None \<Rightarrow> VNone | Some v \<Rightarrow> v), w))"

definition env_cache_set :: "pyval \<Rightarrow> pyval \<Rightarrow> (unit, 'c) action" where
  "env_cache_set k v = (\<lambda>w. (Inr (), w\<lparr>env_cache := (env_cache w)(k \<mapsto> v)\<rparr>))"

text \<open>
  Lines 98 to 104 of \<^verbatim>\<open>UrlHunk.data\<close>: the headers of the conditional request, from
  the validators the cache holds for the URL.
\<close>

definition conditional_headers ::
  "bool \<Rightarrow> string \<Rightarrow> ((string \<times> pyval) list, 'c) action" where
  "conditional_headers has_cache url =
     (if has_cache
      then and_then (env_cache_get (headers_key url)) (\<lambda>headers.
        if truthy headers
        then (case unpack2 headers of
                Inl e \<Rightarrow> raise e
              | Inr (etag, lmod) \<Rightarrow>
                  ok ((if truthy etag then [(''If-None-Match'', etag)] else []) @
                      (if truthy lmod then [(''If-Modified-Since'', lmod)] else [])))
        else ok [])
      else ok [])"

definition set_url_memo :: "nat \<Rightarrow> pyval \<Rightarrow> (unit, 'c) action" where
  "set_url_memo i v = (\<lambda>w. (Inr (), w\<lparr>url_memo := (url_memo w)(i \<mapsto> v)\<rparr>))"

text \<open>
  \<^verbatim>\<open>UrlHunk.data\<close>. \<open>has_cache\<close> is \<^verbatim>\<open>self.env and self.env.cache\<close>. On a 304
  the handler reads \<^verbatim>\<open>self.env.cache.get\<close> without that test, which is an
  \<^verbatim>\<open>AttributeError\<close> when there is no environment or no cache. On a response the
  body is memoized first; the arguments of the first \<^verbatim>\<open>cache.set\<close> are evaluated
  before anything is stored.
\<close>

definition UrlHunk_data :: "nat \<Rightarrow> string \<Rightarrow> environment option \<Rightarrow> (pyval, 'c) action" where
  "UrlHunk_data i url env =
     (\<lambda>w. case url_memo w i of
        Some d \<Rightarrow> (Inr d, w)
      | None \<Rightarrow>
         (let has_cache = (case env of None \<Rightarrow> False | Some e \<Rightarrow> env_has_cache e)
          in and_then (conditional_headers has_cache url) (\<lambda>hs w1.
               case urlopen w1 \<lparr>req_url = url, req_headers = hs\<rparr> of
                 Inl (HTTPError code) \<Rightarrow>
                   if code \<noteq> 304 then (Inl (HTTPError code), w1)
                   else if has_cache
                   then and_then (env_cache_get (contents_key url)) (\<lambda>d.
                          and_then (set_url_memo i d) (\<lambda>_. ok d)) w1
                   else (Inl AttributeError, w1)
               | Inl e \<Rightarrow> (Inl e, w1)
               | Inr resp \<Rightarrow>
                   and_then (set_url_memo i (VBytes (body resp))) (\<lambda>_.
                     if has_cache
                     then (case headers_getheader resp of
                             None \<Rightarrow> raise AttributeError
                           | Some getheader \<Rightarrow>
                               and_then (env_cache_set (headers_key url)
                                   (VTuple [getheader ''ETag'', getheader ''Last-Modified''])) (\<lambda>_.
                               and_then (env_cache_set (contents_key url) (VBytes (body resp))) (\<lambda>_.
                                 ok (VBytes (body resp)))))
                     else ok (VBytes (body resp))) w1) w))"

text \<open>
  \<^verbatim>\<open>FileHunk.data\<close> opens the file (an \<^verbatim>\<open>IOError\<close> when it cannot), reads it
  and decodes the bytes. \<^verbatim>\<open>MemoryHunk.data\<close> reads \<^verbatim>\<open>self._data\<close> when it has a
  \<^verbatim>\<open>read\<close> method and returns it as it is otherwise.
\<close>

fun data :: "runtime \<Rightarrow> hunk \<Rightarrow> (pyval, 'c) action" where
  "data rt (FileHunk filename) =
     (\<lambda>w. case files w filename of
        None \<Rightarrow> (Inl IOError, w)
      | Some b \<Rightarrow> (case decode rt b of
                    None \<Rightarrow> (Inl UnicodeDecodeError, w)
                  | Some s \<Rightarrow> (Inr (VStr s), w)))"
| "data rt (UrlHunk i url env) = UrlHunk_data i url env"
| "data rt (MemoryHunk (Reader r) fs) =
     (\<lambda>w. case read_stream (readers w r) of
        (v, rest) \<Rightarrow> (Inr v, w\<lparr>readers := (readers w)(r := rest)\<rparr>))"
| "data rt (MemoryHunk (Data v) fs) = ok v"

text \<open>
  \<^verbatim>\<open>BaseHunk.__hash__\<close> and \<^verbatim>\<open>BaseHunk.__eq__\<close> (the other operand is a hunk, so
  the \<^verbatim>\<open>isinstance\<close> test holds): the hash of the data, and the comparison of the
  two hashes.
\<close>

definition BaseHunk_hash :: "runtime \<Rightarrow> hunk \<Rightarrow> (int, 'c) action" where
  "BaseHunk_hash rt h = and_then (data rt h) (\<lambda>v. ok (hash_of rt v))"

definition BaseHunk_eq :: "runtime \<Rightarrow> hunk \<Rightarrow> hunk \<Rightarrow> (bool, 'c) action" where
  "BaseHunk_eq rt h other =
     and_then (BaseHunk_hash rt h) (\<lambda>a.
     and_then (BaseHunk_hash rt other) (\<lambda>b. ok (a = b)))"

section \<open>Merging hunks\<close>

text \<open>
  The loop of \<^verbatim>\<open>merge\<close>: each hunk's data, decoded when it is bytes, appended
  to \<open>tmp\<close>.
\<close>

fun merge_loop :: "runtime \<Rightarrow> hunk list \<Rightarrow> pyval list \<Rightarrow> (pyval list, 'c) action" where
  "merge_loop rt [] tmp = ok tmp"
| "merge_loop rt (h # hunks) tmp =
     and_then (data rt h) (\<lambda>v.
       case v of
         VBytes b \<Rightarrow> (case decode rt b of
                       None \<Rightarrow> raise UnicodeDecodeError
                     | Some s \<Rightarrow> merge_loop rt hunks (tmp @ [VStr s]))
       | _ \<Rightarrow> merge_loop rt hunks (tmp @ [v]))"

text \<open>
  \<^verbatim>\<open>separator.join(items)\<close> for a string separator: the items must all be strings
  (a \<^verbatim>\<open>TypeError\<close> otherwise).
\<close>

fun join :: "string \<Rightarrow> string list \<Rightarrow> string" where
  "join sep [] = []"
| "join sep [x] = x"
| "join sep (x # y # ys) = x @ sep @ join sep (y # ys)"

fun strings_of :: "pyval list \<Rightarrow> string list option" where
  "strings_of [] = Some []"
| "strings_of (VStr s # vs) = map_option ((#) s) (strings_of vs)"
| "strings_of (v # vs) = None"

definition str_join :: "string \<Rightarrow> pyval list \<Rightarrow> exn + string" where
  "str_join sep items =
     (case strings_of items of None \<Rightarrow> Inl TypeError | Some xs \<Rightarrow> Inr (join sep xs))"

text \<open>
  \<^verbatim>\<open>merge(hunks, separator=None)\<close>. The separator is \<^verbatim>\<open>None\<close> or a string;
  \<^verbatim>\<open>if not separator\<close> replaces \<^verbatim>\<open>None\<close> and the empty string by a newline.
\<close>

definition merge :: "runtime \<Rightarrow> hunk list \<Rightarrow> string option \<Rightarrow> (hunk, 'c) action" where
  "merge rt hunks separator =
     (let separator' = (case separator of
                          None \<Rightarrow> [CHR 0x0A]
                        | Some s \<Rightarrow> if s = [] then [CHR 0x0A] else s)
      in and_then (merge_loop rt hunks []) (\<lambda>tmp.
           case str_join separator' tmp of
             Inl e \<Rightarrow> raise e
           | Inr joined \<Rightarrow> ok (MemoryHunk (Data (VStr joined)) [])))"

section \<open>FilterTool\<close>

text \<open>
  The cache object given to \<open>FilterTool\<close> is opaque: its two methods are functions of
  the key and of the cache's own state, of which nothing is assumed. \<open>cache_get\<close>
  answers the stored value, or \<^verbatim>\<open>None\<close> or \<^verbatim>\<open>False\<close>.
\<close>

record 'c cache_obj =
  cache_get :: "key \<Rightarrow> 'c \<Rightarrow> pyval"
  cache_set :: "key \<Rightarrow> pyval \<Rightarrow> 'c \<Rightarrow> 'c"

text \<open>
  The attributes of a \<open>FilterTool\<close>. \<open>cache = None\<close> is a tool made without a cache
  (\<^verbatim>\<open>if self.cache\<close> fails); a cache object is truthy.
\<close>

record 'c filter_tool =
  cache :: "'c cache_obj option"
  no_cache_read :: bool
  kwargs :: options

definition VALID_TRANSFORMS :: "string list" where
  "VALID_TRANSFORMS = [''input'', ''output'']"

definition VALID_FUNCS :: "string list" where
  "VALID_FUNCS = [''open'', ''concat'']"

definition log_event :: "event \<Rightarrow> (unit, 'c) action" where
  "log_event e = (\<lambda>w. (Inr (), w\<lparr>trace := trace w @ [e]\<rparr>))"

text \<open>\<^verbatim>\<open>self.cache.get(key)\<close> and \<^verbatim>\<open>self.cache.set(key, content)\<close>.\<close>

definition call_cache_get :: "'c cache_obj \<Rightarrow> key \<Rightarrow> (pyval, 'c) action" where
  "call_cache_get c k =
     and_then (log_event (CacheGet k)) (\<lambda>_ w. (Inr (cache_get c k (store w)), w))"

definition call_cache_set :: "'c cache_obj \<Rightarrow> key \<Rightarrow> pyval \<Rightarrow> (unit, 'c) action" where
  "call_cache_set c k content =
     and_then (log_event (CacheSet k content))
       (\<lambda>_ w. (Inr (), w\<lparr>store := cache_set c k content (store w)\<rparr>))"

text \<open>\<^verbatim>\<open>content in (False, None)\<close>.\<close>

definition in_False_None :: "pyval \<Rightarrow> bool" where
  "in_False_None content = py_in py_eq content [VBool False, VNone]"

text \<open>
  \<^verbatim>\<open>FilterTool._wrap_cache(key, func)\<close>; \<open>func\<close> stands for
  \<^verbatim>\<open>func().getvalue()\<close>.
\<close>

definition FilterTool_wrap_cache ::
  "'c filter_tool \<Rightarrow> key \<Rightarrow> (pyval, 'c) action \<Rightarrow> (hunk, 'c) action" where
  "FilterTool_wrap_cache self k func =
     (let compute =
            and_then func (\<lambda>content.
            and_then (case cache self of
                        Some c \<Rightarrow> call_cache_set c k content
                      | None \<Rightarrow> ok ()) (\<lambda>_.
              ok (MemoryHunk (Data content) [])))
      in case cache self of
           Some c \<Rightarrow>
             if \<not> no_cache_read self
             then and_then (call_cache_get c k) (\<lambda>content.
                    if \<not> in_False_None content
                    then ok (MemoryHunk (Data content) [])
                    else compute)
             else compute
         | None \<Rightarrow> compute)"

text \<open>
  \<^verbatim>\<open>io.BytesIO(h)\<close> for bytes and \<^verbatim>\<open>io.StringIO(h)\<close> otherwise; the latter
  takes a string or \<^verbatim>\<open>None\<close> and raises \<^verbatim>\<open>TypeError\<close> on anything else.
\<close>

fun open_stream :: "pyval \<Rightarrow> exn + stream" where
  "open_stream (VBytes b) = Inr (BytesIO b)"
| "open_stream (VStr s) = Inr (StringIO s)"
| "open_stream VNone = Inr (StringIO [])"
| "open_stream v = Inl TypeError"

text \<open>
  The output stream is of the kind of the input stream; after the call it holds what
  the method wrote.
\<close>

fun out_stream :: "stream \<Rightarrow> string \<Rightarrow> stream" where
  "out_stream (StringIO s) written = StringIO written"
| "out_stream (BytesIO b) written = BytesIO written"

fun getvalue :: "stream \<Rightarrow> pyval" where
  "getvalue (StringIO s) = VStr s"
| "getvalue (BytesIO b) = VBytes b"

text \<open>
  The loop of \<open>func\<close> in \<^verbatim>\<open>apply\<close>: each filter's method of the given type is
  called on the current stream and a new output stream, which becomes the current one.
\<close>

fun run_filters ::
  "string \<Rightarrow> options \<Rightarrow> filter_obj list \<Rightarrow> stream \<Rightarrow> (stream, 'c) action" where
  "run_filters type kwargs_final [] d = ok d"
| "run_filters type kwargs_final (f # filters) d =
     (case transforms f type of
        None \<Rightarrow> raise AttributeError
      | Some method \<Rightarrow>
          and_then (log_event (FilterCall f type)) (\<lambda>_.
            case method kwargs_final d of
              Inl msg \<Rightarrow> raise (FilterRaised msg)
            | Inr written \<Rightarrow> run_filters type kwargs_final filters (out_stream d written)))"

text \<open>
  \<^verbatim>\<open>kwargs_final = self.kwargs.copy(); kwargs_final.update(kwargs or {})\<close>.
\<close>

definition kwargs_final :: "'c filter_tool \<Rightarrow> options option \<Rightarrow> options" where
  "kwargs_final self kw = kwargs self ++ (case kw of None \<Rightarrow> Map.empty | Some k \<Rightarrow> k)"

text \<open>The closure \<open>func\<close> of \<^verbatim>\<open>apply\<close>, followed by \<^verbatim>\<open>getvalue()\<close>.\<close>

definition apply_func_body ::
  "runtime \<Rightarrow> 'c filter_tool \<Rightarrow> hunk \<Rightarrow> filter_obj list \<Rightarrow> string \<Rightarrow> options option
     \<Rightarrow> (pyval, 'c) action" where
  "apply_func_body rt self hunk filters type kw =
     and_then (data rt hunk) (\<lambda>h.
       case open_stream h of
         Inl e \<Rightarrow> raise e
       | Inr d \<Rightarrow> and_then (run_filters type (kwargs_final self kw) filters d) (\<lambda>d'.
                   ok (getvalue d')))"

text \<open>
  \<^verbatim>\<open>FilterTool.apply(hunk, filters, type, kwargs=None)\<close>. \<open>apply_key\<close> is the key
  it builds, from the hunk, the filters that have a method of the type, and the type.
\<close>

definition apply_key :: "hunk \<Rightarrow> filter_obj list \<Rightarrow> string \<Rightarrow> key" where
  "apply_key hunk filters type =
     HunkKey hunk (filter (\<lambda>f. transforms f type \<noteq> None) filters) type"

definition FilterTool_apply ::
  "runtime \<Rightarrow> 'c filter_tool \<Rightarrow> hunk \<Rightarrow> filter_obj list \<Rightarrow> string \<Rightarrow> options option
     \<Rightarrow> (hunk, 'c) action" where
  "FilterTool_apply rt self hunk filters type kw =
     (if type \<notin> set VALID_TRANSFORMS then raise AssertionError
      else
        let filters' = filter (\<lambda>f. transforms f type \<noteq> None) filters
        in if filters' = [] then ok hunk
           else FilterTool_wrap_cache self (apply_key hunk filters type)
                  (apply_func_body rt self hunk filters' type kw))"

text \<open>
  The closure \<open>func\<close> of \<^verbatim>\<open>apply_func\<close>, followed by \<^verbatim>\<open>getvalue()\<close>: the output
  stream is an \<^verbatim>\<open>io.StringIO\<close>, and the method of \<^verbatim>\<open>filters[0]\<close> is called once.
\<close>

definition producer_body ::
  "'c filter_tool \<Rightarrow> filter_obj list \<Rightarrow> string \<Rightarrow> pyval list \<Rightarrow> options option
     \<Rightarrow> (pyval, 'c) action" where
  "producer_body self filters type args kw =
     (case filters of
        [] \<Rightarrow> raise IndexError
      | f # _ \<Rightarrow>
          (case funcs f type of
             None \<Rightarrow> raise AttributeError
           | Some method \<Rightarrow>
               and_then (log_event (FilterCall f type)) (\<lambda>_.
                 case method (kwargs_final self kw) args of
                   Inl msg \<Rightarrow> raise (FilterRaised msg)
                 | Inr written \<Rightarrow> ok (VStr written))))"

text \<open>
  \<^verbatim>\<open>FilterTool.apply_func(filters, type, args, kwargs=None, cache_key=None)\<close>.
\<close>

definition FilterTool_apply_func ::
  "'c filter_tool \<Rightarrow> filter_obj list \<Rightarrow> string \<Rightarrow> pyval list \<Rightarrow> options option
     \<Rightarrow> pyval list option \<Rightarrow> (hunk, 'c) action" where
  "FilterTool_apply_func self filters type args kw cache_key =
     (if type \<notin> set VALID_FUNCS then raise AssertionError
      else
        let filters' = filter (\<lambda>f. funcs f type \<noteq> None) filters
        in if filters' = [] then raise NoFilters
           else if length filters' > 1
           then raise (MoreThanOneFilterError
                  (''These filters cannot be combined: '' @ join '', '' (map name filters'))
                  filters')
           else FilterTool_wrap_cache self
                  (FuncKey args filters' type (case cache_key of None \<Rightarrow> [] | Some ck \<Rightarrow> ck))
                  (producer_body self filters' type args kw))"

section \<open>Equality and hash of the cache keys\<close>

text \<open>
  Two tuples are equal when they have the same length and their items are pairwise
  the same object or equal.
\<close>

definition tuple_eq :: "('a \<Rightarrow> 'a \<Rightarrow> bool) \<Rightarrow> 'a list \<Rightarrow> 'a list \<Rightarrow> bool" where
  "tuple_eq eq xs ys = list_all2 (\<lambda>x y. x = y \<or> eq x y) xs ys"

text \<open>
  \<^verbatim>\<open>==\<close> and \<^verbatim>\<open>hash\<close> on the keys, as Python defines them on tuples: item by
  item, the hunks by \<^verbatim>\<open>BaseHunk.__eq__\<close> and \<^verbatim>\<open>BaseHunk.__hash__\<close>, the filters
  by the equality and hash of their class. A key of \<^verbatim>\<open>apply\<close> and a key of
  \<^verbatim>\<open>apply_func\<close> differ in their second item (a hunk is equal to hunks only). The
  key of \<^verbatim>\<open>apply_func\<close> holds lists, which have no hash.
\<close>

fun key_eq :: "runtime \<Rightarrow> key \<Rightarrow> key \<Rightarrow> (bool, 'c) action" where
  "key_eq rt (HunkKey h fs t) (HunkKey h' fs' t') =
     and_then (BaseHunk_eq rt h h') (\<lambda>same.
       ok (same \<and> tuple_eq (filter_eq rt) fs fs' \<and> t = t'))"
| "key_eq rt (FuncKey args fs t ck) (FuncKey args' fs' t' ck') =
     ok (list_all2 py_eq args args' \<and> tuple_eq (filter_eq rt) fs fs' \<and> t = t' \<and>
         list_all2 py_eq ck ck')"
| "key_eq rt k k' = ok False"

fun key_hash :: "runtime \<Rightarrow> key \<Rightarrow> (int, 'c) action" where
  "key_hash rt (HunkKey h fs t) =
     and_then (BaseHunk_hash rt h) (\<lambda>hh.
       ok (tuple_hash rt [hash_of rt (VStr ''hunk''), hh,
             tuple_hash rt (map (filter_hash rt) fs), hash_of rt (VStr t)]))"
| "key_hash rt (FuncKey args fs t ck) = raise TypeError"

text \<open>
  Modelled from the spec: the cache store (\<^verbatim>\<open>webassets/cache.py\<close> is not among the
  sources), "an opaque key to bytes map" in which "two operations collide iff all
  components are equal"; here a Python \<^verbatim>\<open>dict\<close> keyed by the key tuples, the use
  \<^verbatim>\<open>BaseHunk.__eq__\<close> names ("Allow class to be used as a unique dict key"). An entry
  keeps the hash its key had when it was stored; a lookup hashes the key it is given and
  compares it with the keys of the entries of that hash, the stored key on the left.
\<close>

type_synonym dict_entries = "(int \<times> key \<times> pyval) list"

fun dict_probe :: "runtime \<Rightarrow> int \<Rightarrow> key \<Rightarrow> dict_entries \<Rightarrow> (pyval option, 'c) action" where
  "dict_probe rt h k [] = ok None"
| "dict_probe rt h k ((h', k', v) # entries) =
     (if h' = h
      then and_then (key_eq rt k' k) (\<lambda>same.
             if same then ok (Some v) else dict_probe rt h k entries)
      else dict_probe rt h k entries)"

fun dict_insert ::
  "runtime \<Rightarrow> int \<Rightarrow> key \<Rightarrow> pyval \<Rightarrow> dict_entries \<Rightarrow> (dict_entries, 'c) action" where
  "dict_insert rt h k v [] = ok [(h, k, v)]"
| "dict_insert rt h k v ((h', k', v') # entries) =
     (if h' = h
      then and_then (key_eq rt k' k) (\<lambda>same.
             if same then ok ((h', k', v) # entries)
             else and_then (dict_insert rt h k v entries) (\<lambda>entries'.
                    ok ((h', k', v') # entries')))
      else and_then (dict_insert rt h k v entries) (\<lambda>entries'.
             ok ((h', k', v') # entries')))"

text \<open>\<^verbatim>\<open>d.get(key)\<close> and \<^verbatim>\<open>d[key] = value\<close>.\<close>

definition dict_get :: "runtime \<Rightarrow> dict_entries \<Rightarrow> key \<Rightarrow> (pyval, 'c) action" where
  "dict_get rt d k =
     and_then (key_hash rt k) (\<lambda>h.
     and_then (dict_probe rt h k d) (\<lambda>found.
       ok (case found of None \<Rightarrow> VNone | Some v \<Rightarrow> v)))"

definition dict_set :: "runtime \<Rightarrow> dict_entries \<Rightarrow> key \<Rightarrow> pyval \<Rightarrow> (dict_entries, 'c) action" where
  "dict_set rt d k v = and_then (key_hash rt k) (\<lambda>h. dict_insert rt h k v d)"

section \<open>The chain and the contents, as the specification words them\<close>

text \<open>
  The transform chain of section 4.4, step 4, of the specification, without the world:
  "for each filter in order, invoke its transform method with the current stream as
  input and a freshly allocated output stream as destination; the output of one filter
  becomes the input to the next", the kind of the stream (text or bytes) kept
  throughout. The result is the last output stream, or the exception of the first
  method that raises.
\<close>

fun spec_pipeline :: "string \<Rightarrow> options \<Rightarrow> filter_obj list \<Rightarrow> stream \<Rightarrow> exn + stream" where
  "spec_pipeline type kw [] d = Inr d"
| "spec_pipeline type kw (f # filters) d =
     (case transforms f type of
        None \<Rightarrow> Inl AttributeError
      | Some m \<Rightarrow>
          (case m kw d of
             Inl msg \<Rightarrow> Inl (FilterRaised msg)
           | Inr written \<Rightarrow> spec_pipeline type kw filters (out_stream d written)))"

text \<open>
  "Each input hunk's \<open>data()\<close>", in order, as text: \<open>read_texts hunks w\<close> reads the
  hunks one after the other from the world \<open>w\<close> and gives their contents (bytes
  decoded) and the world the reads leave, or \<open>None\<close> when a read raises, bytes do not
  decode, or a content is neither a string nor bytes.
\<close>

fun read_texts :: "runtime \<Rightarrow> hunk list \<Rightarrow> 'c world \<Rightarrow> (string list \<times> 'c world) option" where
  "read_texts rt [] w = Some ([], w)"
| "read_texts rt (h # hunks) w =
     (case data rt h w of
        (Inr (VStr s), w1) \<Rightarrow>
          map_option (\<lambda>(texts, w'). (s # texts, w')) (read_texts rt hunks w1)
      | (Inr (VBytes b), w1) \<Rightarrow>
          (case decode rt b of
             None \<Rightarrow> None
           | Some s \<Rightarrow> map_option (\<lambda>(texts, w'). (s # texts, w')) (read_texts rt hunks w1))
      | _ \<Rightarrow> None)"

section \<open>Example objects\<close>

text \<open>
  Concrete objects on which the theorems below are run: a runtime whose filters are
  equal when their names are, filters that prepend their name to the stream, a cache of
  one slot, a tool, and a world with one file.
\<close>

definition example_level :: "pyval \<Rightarrow> int" where
  "example_level v = (if v = VBool False then 0 else if v = VStr ''merge'' then 1 else 2)"

definition example_runtime :: runtime where
  "example_runtime =
     \<lparr>hash_of = (\<lambda>v. case v of VStr s \<Rightarrow> int (length s) | VBytes b \<Rightarrow> int (length b) | _ \<Rightarrow> 0),
      tuple_hash = sum_list,
      decode = Some,
      filter_eq = (\<lambda>f g. name f = name g),
      filter_hash = (\<lambda>f. int (length (name f))),
      cmp_debug_levels = (\<lambda>a b. example_level a - example_level b)\<rparr>"

definition example_filter :: "nat \<Rightarrow> string \<Rightarrow> pyval \<Rightarrow> string list \<Rightarrow> filter_obj" where
  "example_filter i n lvl methods =
     \<lparr>oid = i, name = n, max_debug_level = lvl,
      transforms = (\<lambda>t. if t \<in> set methods
                         then Some (\<lambda>kw d. Inr (n @ (case d of StringIO s \<Rightarrow> s | BytesIO b \<Rightarrow> b)))
                         else None),
      funcs = (\<lambda>t. if t \<in> set methods then Some (\<lambda>kw args. Inr n) else None)\<rparr>"

definition example_cache :: "pyval cache_obj" where
  "example_cache = \<lparr>cache_get = (\<lambda>k st. st), cache_set = (\<lambda>k v st. v)\<rparr>"

definition example_tool :: "pyval cache_obj option \<Rightarrow> bool \<Rightarrow> pyval filter_tool" where
  "example_tool c no_read = \<lparr>cache = c, no_cache_read = no_read, kwargs = Map.empty\<rparr>"

definition no_network :: "request \<Rightarrow> exn + response" where
  "no_network r = Inl URLError"

definition example_world :: "(request \<Rightarrow> exn + response) \<Rightarrow> 'c \<Rightarrow> 'c world" where
  "example_world net st =
     \<lparr>files = [''a.css'' \<mapsto> ''a{color:red}''],
      readers = (\<lambda>r. StringIO ''a{color:red}''),
      url_memo = Map.empty,
      urlopen = net,
      env_cache = Map.empty,
      store = st,
      trace = []\<rparr>"

definition cssmin :: filter_obj where
  "cssmin = example_filter 2 ''cssmin'' VNone [''output'']"

definition less_f :: filter_obj where
  "less_f = example_filter 1 ''less'' VNone [''input'', ''open'']"

definition sass_f :: filter_obj where
  "sass_f = example_filter 3 ''sass'' VNone [''open'']"

text \<open>
  A network that answers every request with a body and with headers that have no
  \<^verbatim>\<open>getheader\<close> attribute, as the \<^verbatim>\<open>http.client.HTTPMessage\<close> of a Python 3
  response.
\<close>

definition python3_network :: "request \<Rightarrow> exn + response" where
  "python3_network r = Inr \<lparr>body = ''body{}'', headers_getheader = None\<rparr>"

section \<open>Computations step by step\<close>

lemma ok_apply: "ok x w = (Inr x, w)"
  by (simp add: ok_def)

lemma raise_apply: "raise e w = (Inl e, w)"
  by (simp add: raise_def)

lemma and_then_apply:
  "and_then m f w = (case m w of (Inl e, w') \<Rightarrow> (Inl e, w') | (Inr x, w') \<Rightarrow> f x w')"
  by (simp add: and_then_def)

lemma log_event_apply: "log_event e w = (Inr (), w\<lparr>trace := trace w @ [e]\<rparr>)"
  by (simp add: log_event_def)

lemma call_cache_get_apply:
  "call_cache_get c k w = (Inr (cache_get c k (store w)), w\<lparr>trace := trace w @ [CacheGet k]\<rparr>)"
  by (simp add: call_cache_get_def and_then_apply log_event_apply)

lemma call_cache_set_apply:
  "call_cache_set c k v w =
     (Inr (), w\<lparr>trace := trace w @ [CacheSet k v], store := cache_set c k v (store w)\<rparr>)"
  by (simp add: call_cache_set_def and_then_apply log_event_apply)

section \<open>Filter-chain composition: theorems\<close>

lemma merge_filters_loop_snoc:
  "merge_filters_loop rt result (fs @ [f]) =
     (let r = merge_filters_loop rt result fs
      in if py_in (filter_eq rt) f r then r else r @ [f])"
  by (induction fs arbitrary: result) (simp_all add: Let_def)

lemma merge_filters_Nil: "merge_filters rt p [] = p"
  by (simp add: merge_filters_def)

lemma merge_filters_eq_loop: "merge_filters rt p s = merge_filters_loop rt p s"
  by (cases s) (simp_all add: merge_filters_def)

lemma merge_filters_snoc:
  "merge_filters rt p (s @ [f]) =
     (if py_in (filter_eq rt) f (merge_filters rt p s)
      then merge_filters rt p s else merge_filters rt p s @ [f])"
  by (simp add: merge_filters_eq_loop merge_filters_loop_snoc Let_def)

text \<open>
  The result in closed form: the first list, then the items of the second list, by
  position, that are not in the result as merged up to that position.
\<close>

lemma merge_filters_explicit:
  "merge_filters rt p s =
     p @ map (\<lambda>i. s ! i)
           (filter (\<lambda>i. \<not> py_in (filter_eq rt) (s ! i) (merge_filters rt p (take i s)))
              [0..<length s])"
proof (induction s rule: rev_induct)
  case Nil
  show ?case by (simp add: merge_filters_Nil)
next
  case (snoc f s)
  have same: "filter (\<lambda>i. \<not> py_in (filter_eq rt) ((s @ [f]) ! i) (merge_filters rt p (take i (s @ [f]))))
                 [0..<length s]
            = filter (\<lambda>i. \<not> py_in (filter_eq rt) (s ! i) (merge_filters rt p (take i s)))
                 [0..<length s]"
    by (rule filter_cong) (auto simp: nth_append)
  have same_map: "map (\<lambda>i. (s @ [f]) ! i)
         (filter (\<lambda>i. \<not> py_in (filter_eq rt) (s ! i) (merge_filters rt p (take i s))) [0..<length s])
       = map (\<lambda>i. s ! i)
         (filter (\<lambda>i. \<not> py_in (filter_eq rt) (s ! i) (merge_filters rt p (take i s))) [0..<length s])"
    by (rule map_cong) (auto simp: nth_append)
  show ?case
    using snoc.IH same same_map
    by (simp add: merge_filters_snoc)
qed

lemma py_in_iff: "py_in eq x xs \<longleftrightarrow> (\<exists>e \<in> set xs. x = e \<or> eq x e)"
  by (induction xs) auto

text \<open>
  C6. \<open>merge_filters primary secondary\<close> is \<open>primary\<close>, unchanged and in its order,
  followed by the filters of \<open>secondary\<close>, in their order, that are not in the result
  accumulated before them: the filter at position \<open>i\<close> of \<open>secondary\<close> is appended
  exactly when it is neither identical nor equal to a filter of the merge of \<open>primary\<close>
  with the first \<open>i\<close> filters of \<open>secondary\<close>. In particular
  \<open>merge_filters [A, B] [B, C] = [A, B, C]\<close> when \<open>C\<close> is equal to neither \<open>A\<close> nor
  \<open>B\<close>.
\<close>

theorem merge_filters_appends_unseen:
  "merge_filters rt primary secondary =
     primary @ map (\<lambda>i. secondary ! i)
       (filter (\<lambda>i. \<not> py_in (filter_eq rt) (secondary ! i)
                         (merge_filters rt primary (take i secondary)))
          [0..<length secondary])
   \<and> (py_in (filter_eq rt) f (merge_filters rt primary secondary) \<longleftrightarrow>
        (\<exists>e \<in> set (merge_filters rt primary secondary). f = e \<or> filter_eq rt f e))
   \<and> (C \<noteq> A \<and> \<not> filter_eq rt C A \<and> C \<noteq> B \<and> \<not> filter_eq rt C B \<longrightarrow>
        merge_filters rt [A, B] [B, C] = [A, B, C])"
proof (intro conjI impI)
  show "merge_filters rt primary secondary =
     primary @ map (\<lambda>i. secondary ! i)
       (filter (\<lambda>i. \<not> py_in (filter_eq rt) (secondary ! i)
                         (merge_filters rt primary (take i secondary)))
          [0..<length secondary])"
    by (rule merge_filters_explicit)
next
  show "py_in (filter_eq rt) f (merge_filters rt primary secondary) \<longleftrightarrow>
        (\<exists>e \<in> set (merge_filters rt primary secondary). f = e \<or> filter_eq rt f e)"
    by (rule py_in_iff)
next
  assume "C \<noteq> A \<and> \<not> filter_eq rt C A \<and> C \<noteq> B \<and> \<not> filter_eq rt C B"
  then show "merge_filters rt [A, B] [B, C] = [A, B, C]"
    by (simp add: merge_filters_def)
qed

text \<open>
  The theorem at two lists that share the filter named \<open>cssmin\<close> (two objects, equal by
  name): the second \<open>cssmin\<close> is dropped and \<open>gzip\<close> is appended.
\<close>

theorem merge_filters_appends_unseen_witness:
  "merge_filters example_runtime
     [example_filter 1 ''less'' VNone [''input''], example_filter 2 ''cssmin'' VNone [''output'']]
     [example_filter 3 ''cssmin'' VNone [''output''], example_filter 4 ''gzip'' VNone [''output'']]
   = [example_filter 1 ''less'' VNone [''input''], example_filter 2 ''cssmin'' VNone [''output''],
      example_filter 4 ''gzip'' VNone [''output'']]"
proof -
  let ?p = "[example_filter 1 ''less'' VNone [''input''], example_filter 2 ''cssmin'' VNone [''output'']]"
  let ?s = "[example_filter 3 ''cssmin'' VNone [''output''], example_filter 4 ''gzip'' VNone [''output'']]"
  have "merge_filters example_runtime ?p ?s =
     ?p @ map (\<lambda>i. ?s ! i)
       (filter (\<lambda>i. \<not> py_in (filter_eq example_runtime) (?s ! i)
                         (merge_filters example_runtime ?p (take i ?s)))
          [0..<length ?s])"
    using merge_filters_appends_unseen [of example_runtime ?p ?s] by blast
  also have "[0..<length ?s] = [0, 1]"
    by (simp add: upt_rec)
  finally show ?thesis
    by (simp add: merge_filters_def example_runtime_def example_filter_def)
qed

lemma select_filters_filter:
  "select_filters rt fs level =
     filter (\<lambda>f. max_debug_level f = VNone \<or> cmp_debug_levels rt level (max_debug_level f) \<le> 0) fs"
  by (induction fs) simp_all

text \<open>
  C7. \<open>select_filters filters level\<close> keeps, in their order, exactly the filters whose
  \<open>max_debug_level\<close> is \<^verbatim>\<open>None\<close> or for which
  \<open>cmp_debug_levels level max_debug_level \<le> 0\<close>; every other filter is left out.
\<close>

theorem select_filters_keeps_enabled:
  "select_filters rt filters level =
     filter (\<lambda>f. max_debug_level f = VNone \<or>
                  cmp_debug_levels rt level (max_debug_level f) \<le> 0) filters
   \<and> subseq (select_filters rt filters level) filters
   \<and> (f \<in> set (select_filters rt filters level) \<longleftrightarrow>
        f \<in> set filters \<and>
        (max_debug_level f = VNone \<or> cmp_debug_levels rt level (max_debug_level f) \<le> 0))"
  by (auto simp: select_filters_filter)

text \<open>
  The theorem at level \<^verbatim>\<open>'merge'\<close>: the filter without a level and the filter of
  level \<^verbatim>\<open>True\<close> stay, the filter of level \<^verbatim>\<open>False\<close> goes.
\<close>

theorem select_filters_keeps_enabled_witness:
  "select_filters example_runtime
     [example_filter 1 ''a'' VNone [], example_filter 2 ''b'' (VBool False) [],
      example_filter 3 ''c'' (VBool True) []] (VStr ''merge'')
   = [example_filter 1 ''a'' VNone [], example_filter 3 ''c'' (VBool True) []]"
  using select_filters_keeps_enabled
    [of example_runtime "[example_filter 1 ''a'' VNone [], example_filter 2 ''b'' (VBool False) [],
      example_filter 3 ''c'' (VBool True) []]" "VStr ''merge''"]
  by (simp add: example_runtime_def example_filter_def example_level_def)

section \<open>FilterTool: the short circuit and the errors\<close>

text \<open>
  C3. When no filter of the list has a method of the transform type (\<^verbatim>\<open>'input'\<close> or
  \<^verbatim>\<open>'output'\<close>), \<open>FilterTool.apply\<close> returns the hunk it was given and leaves the world
  as it was: no event is added to the trace (no cache \<^verbatim>\<open>get\<close> or \<^verbatim>\<open>set\<close>), the
  store of the cache is untouched, and no hunk is made.
\<close>

theorem apply_without_transform_returns_hunk:
  "type \<in> set VALID_TRANSFORMS \<and> (\<forall>f \<in> set filters. transforms f type = None) \<longrightarrow>
     FilterTool_apply rt self hunk filters type kw w = (Inr hunk, w)"
proof
  assume a: "type \<in> set VALID_TRANSFORMS \<and> (\<forall>f \<in> set filters. transforms f type = None)"
  then have "filter (\<lambda>f. transforms f type \<noteq> None) filters = []"
    by (simp add: filter_empty_conv)
  with a show "FilterTool_apply rt self hunk filters type kw w = (Inr hunk, w)"
    by (simp add: FilterTool_apply_def ok_apply)
qed

theorem apply_without_transform_returns_hunk_witness:
  "FilterTool_apply example_runtime (example_tool (Some example_cache) False) (FileHunk ''a.css'')
     [example_filter 1 ''less'' VNone [''input'', ''open'']] ''output'' None
     (example_world no_network (VStr ''cached''))
   = (Inr (FileHunk ''a.css''), example_world no_network (VStr ''cached''))"
  using apply_without_transform_returns_hunk
    [of "''output''" "[example_filter 1 ''less'' VNone [''input'', ''open'']]"
        example_runtime "example_tool (Some example_cache) False" "FileHunk ''a.css''" None
        "example_world no_network (VStr ''cached'')"]
  by (simp add: VALID_TRANSFORMS_def example_filter_def)

text \<open>
  C4. For a producer type (\<^verbatim>\<open>'open'\<close> or \<^verbatim>\<open>'concat'\<close>), \<open>FilterTool.apply_func\<close>
  raises \<open>NoFilters\<close> when no filter of the list has the method, and
  \<open>MoreThanOneFilterError\<close>, carrying the filters that have it, when more than one has.
  In both cases the world is left as it was: no filter method was called, and the cache
  was neither read nor written.
\<close>

theorem apply_func_needs_one_filter:
  "type \<in> set VALID_FUNCS \<longrightarrow>
     (filter (\<lambda>f. funcs f type \<noteq> None) filters = [] \<longrightarrow>
        FilterTool_apply_func self filters type args kw cache_key w = (Inl NoFilters, w))
   \<and> (1 < length (filter (\<lambda>f. funcs f type \<noteq> None) filters) \<longrightarrow>
        FilterTool_apply_func self filters type args kw cache_key w =
          (Inl (MoreThanOneFilterError
                  (''These filters cannot be combined: '' @
                     join '', '' (map name (filter (\<lambda>f. funcs f type \<noteq> None) filters)))
                  (filter (\<lambda>f. funcs f type \<noteq> None) filters)), w))"
  by (auto simp: FilterTool_apply_func_def raise_apply Let_def)

theorem apply_func_needs_one_filter_witness:
  "FilterTool_apply_func (example_tool (Some example_cache) False)
     [example_filter 1 ''less'' VNone [''input'']] ''open'' [] None None
     (example_world no_network (VStr ''cached''))
   = (Inl NoFilters, example_world no_network (VStr ''cached''))
   \<and> FilterTool_apply_func (example_tool (Some example_cache) False)
     [example_filter 1 ''less'' VNone [''open''], example_filter 2 ''sass'' VNone [''open'']]
     ''open'' [] None None (example_world no_network (VStr ''cached''))
   = (Inl (MoreThanOneFilterError ''These filters cannot be combined: less, sass''
        [example_filter 1 ''less'' VNone [''open''], example_filter 2 ''sass'' VNone [''open'']]),
      example_world no_network (VStr ''cached''))"
proof -
  have v: "''open'' \<in> set VALID_FUNCS"
    by (simp add: VALID_FUNCS_def)
  have none: "filter (\<lambda>f. funcs f ''open'' \<noteq> None) [example_filter 1 ''less'' VNone [''input'']] = []"
    by (simp add: example_filter_def)
  have two: "filter (\<lambda>f. funcs f ''open'' \<noteq> None)
      [example_filter 1 ''less'' VNone [''open''], example_filter 2 ''sass'' VNone [''open'']]
      = [example_filter 1 ''less'' VNone [''open''], example_filter 2 ''sass'' VNone [''open'']]"
    by (simp add: example_filter_def)
  have names: "map name [example_filter 1 ''less'' VNone [''open''], example_filter 2 ''sass'' VNone [''open'']]
      = [''less'', ''sass'']"
    by (simp add: example_filter_def)
  show ?thesis
    using apply_func_needs_one_filter
      [of "''open''" "[example_filter 1 ''less'' VNone [''input'']]"
          "example_tool (Some example_cache) False" "[]" None None
          "example_world no_network (VStr ''cached'')"]
      apply_func_needs_one_filter
      [of "''open''"
          "[example_filter 1 ''less'' VNone [''open''], example_filter 2 ''sass'' VNone [''open'']]"
          "example_tool (Some example_cache) False" "[]" None None
          "example_world no_network (VStr ''cached'')"]
      v none two names
    by simp
qed

section \<open>What a call leaves in the world\<close>

text \<open>
  The filter loop adds one call event per filter it reaches, all of them when it returns,
  and changes nothing else.
\<close>

lemma run_filters_calls:
  "run_filters type kw fs d w = (r, w') \<Longrightarrow>
     \<exists>n \<le> length fs. w' = w\<lparr>trace := trace w @ map (\<lambda>f. FilterCall f type) (take n fs)\<rparr>
        \<and> (\<forall>d'. r = Inr d' \<longrightarrow> n = length fs)"
proof (induction fs arbitrary: d w)
  case Nil
  then show ?case by (auto simp: ok_apply)
next
  case (Cons f fs)
  show ?case
  proof (cases "transforms f type")
    case None
    with Cons.prems have "r = Inl AttributeError" "w' = w"
      by (auto simp: raise_apply)
    then show ?thesis by (intro exI[of _ 0]) simp
  next
    case (Some m)
    let ?w1 = "w\<lparr>trace := trace w @ [FilterCall f type]\<rparr>"
    show ?thesis
    proof (cases "m kw d")
      case (Inl msg)
      with Some Cons.prems have "r = Inl (FilterRaised msg)" "w' = ?w1"
        by (auto simp: and_then_apply log_event_apply raise_apply)
      then show ?thesis by (intro exI[of _ 1]) simp
    next
      case (Inr written)
      with Some Cons.prems have "run_filters type kw fs (out_stream d written) ?w1 = (r, w')"
        by (auto simp: and_then_apply log_event_apply)
      from Cons.IH[OF this] obtain n where n: "n \<le> length fs"
        "w' = ?w1\<lparr>trace := trace ?w1 @ map (\<lambda>f. FilterCall f type) (take n fs)\<rparr>"
        "\<forall>d'. r = Inr d' \<longrightarrow> n = length fs"
        by blast
      then show ?thesis by (intro exI[of _ "Suc n"]) simp
    qed
  qed
qed

lemma conditional_headers_frame:
  "conditional_headers b url w = (r, w') \<Longrightarrow> w' = w"
  by (auto simp: conditional_headers_def and_then_apply env_cache_get_def ok_apply raise_apply
      split: if_splits sum.splits prod.splits)

lemma UrlHunk_data_frame:
  "UrlHunk_data i url env w = (r, w') \<Longrightarrow> store w' = store w \<and> trace w' = trace w"
  unfolding UrlHunk_data_def Let_def
  by (auto simp: and_then_apply env_cache_get_def env_cache_set_def set_url_memo_def
        ok_apply raise_apply
      dest!: conditional_headers_frame
      split: option.splits sum.splits exn.splits if_splits prod.splits)

lemma data_frame:
  "data rt h w = (r, w') \<Longrightarrow> store w' = store w \<and> trace w' = trace w"
proof (cases h)
  case (FileHunk filename)
  assume "data rt h w = (r, w')"
  with FileHunk show ?thesis by (auto split: option.splits)
next
  case (UrlHunk i url env)
  assume "data rt h w = (r, w')"
  with UrlHunk show ?thesis by (simp add: UrlHunk_data_frame)
next
  case (MemoryHunk d fs)
  assume "data rt h w = (r, w')"
  with MemoryHunk show ?thesis
    by (cases d) (auto simp: ok_apply split: prod.splits)
qed

lemma apply_func_body_frame:
  "apply_func_body rt self hunk fs type kw w = (r, w') \<Longrightarrow>
     store w' = store w \<and>
     (\<exists>n \<le> length fs. trace w' = trace w @ map (\<lambda>f. FilterCall f type) (take n fs)
        \<and> (\<forall>c. r = Inr c \<longrightarrow> n = length fs))"
proof -
  assume a: "apply_func_body rt self hunk fs type kw w = (r, w')"
  obtain r0 w0 where d: "data rt hunk w = (r0, w0)"
    by (cases "data rt hunk w")
  have f0: "store w0 = store w \<and> trace w0 = trace w"
    using data_frame[OF d] .
  show ?thesis
  proof (cases r0)
    case (Inl e)
    with a d have "r = Inl e" "w' = w0"
      by (auto simp: apply_func_body_def and_then_apply)
    with f0 show ?thesis by (intro conjI exI[of _ 0]) simp_all
  next
    case (Inr h)
    show ?thesis
    proof (cases "open_stream h")
      case (Inl e)
      with a d Inr have "r = Inl e" "w' = w0"
        by (auto simp: apply_func_body_def and_then_apply raise_apply)
      with f0 show ?thesis by (intro conjI exI[of _ 0]) simp_all
    next
      case (Inr s)
      obtain r1 w1 where run: "run_filters type (kwargs_final self kw) fs s w0 = (r1, w1)"
        by (cases "run_filters type (kwargs_final self kw) fs s w0")
      from run_filters_calls[OF run] obtain n where n: "n \<le> length fs"
        "w1 = w0\<lparr>trace := trace w0 @ map (\<lambda>f. FilterCall f type) (take n fs)\<rparr>"
        "\<forall>d'. r1 = Inr d' \<longrightarrow> n = length fs"
        by blast
      from a d \<open>r0 = Inr h\<close> Inr run have "w' = w1" "\<forall>c. r = Inr c \<longrightarrow> (\<exists>d'. r1 = Inr d')"
        by (auto simp: apply_func_body_def and_then_apply ok_apply split: sum.splits)
      with n f0 show ?thesis by (intro conjI exI[of _ n]) auto
    qed
  qed
qed

lemma producer_body_frame:
  "producer_body self fs type args kw w = (r, w') \<Longrightarrow>
     store w' = store w \<and>
     (\<exists>n \<le> length fs. trace w' = trace w @ map (\<lambda>f. FilterCall f type) (take n fs)
        \<and> (\<forall>c. r = Inr c \<longrightarrow> n = 1))"
proof (cases fs)
  case Nil
  assume "producer_body self fs type args kw w = (r, w')"
  with Nil show ?thesis by (auto simp: producer_body_def raise_apply)
next
  case (Cons f rest)
  assume a: "producer_body self fs type args kw w = (r, w')"
  show ?thesis
  proof (cases "funcs f type")
    case None
    with a Cons have "r = Inl AttributeError" "w' = w"
      by (auto simp: producer_body_def raise_apply)
    then show ?thesis by (intro conjI exI[of _ 0]) simp_all
  next
    case (Some m)
    with a Cons have "w' = w\<lparr>trace := trace w @ [FilterCall f type]\<rparr>"
      by (auto simp: producer_body_def and_then_apply log_event_apply raise_apply ok_apply
          split: sum.splits)
    with Cons show ?thesis by (intro conjI exI[of _ 1]) simp_all
  qed
qed

lemma wrap_cache_no_cache:
  "cache self = None \<Longrightarrow>
     FilterTool_wrap_cache self k func w =
       (case func w of
          (Inl e, w2) \<Rightarrow> (Inl e, w2)
        | (Inr content, w2) \<Rightarrow> (Inr (MemoryHunk (Data content) []), w2))"
  by (simp add: FilterTool_wrap_cache_def and_then_apply ok_apply split: prod.splits sum.splits)

lemma wrap_cache_hit:
  "cache self = Some c \<Longrightarrow> \<not> no_cache_read self \<Longrightarrow> \<not> in_False_None (cache_get c k (store w)) \<Longrightarrow>
     FilterTool_wrap_cache self k func w =
       (Inr (MemoryHunk (Data (cache_get c k (store w))) []), w\<lparr>trace := trace w @ [CacheGet k]\<rparr>)"
  by (simp add: FilterTool_wrap_cache_def and_then_apply call_cache_get_apply ok_apply)

lemma wrap_cache_compute:
  "cache self = Some c \<Longrightarrow> no_cache_read self \<or> in_False_None (cache_get c k (store w)) \<Longrightarrow>
     FilterTool_wrap_cache self k func w =
       (case func (if no_cache_read self then w else w\<lparr>trace := trace w @ [CacheGet k]\<rparr>) of
          (Inl e, w2) \<Rightarrow> (Inl e, w2)
        | (Inr content, w2) \<Rightarrow>
            (Inr (MemoryHunk (Data content) []),
             w2\<lparr>trace := trace w2 @ [CacheSet k content],
                store := cache_set c k content (store w2)\<rparr>))"
  by (auto simp: FilterTool_wrap_cache_def and_then_apply call_cache_get_apply
        call_cache_set_apply ok_apply split: prod.splits sum.splits)

lemma apply_is_wrap_cache:
  "type \<in> set VALID_TRANSFORMS \<Longrightarrow> filter (\<lambda>f. transforms f type \<noteq> None) filters \<noteq> [] \<Longrightarrow>
     FilterTool_apply rt self hunk filters type kw =
       FilterTool_wrap_cache self (apply_key hunk filters type)
         (apply_func_body rt self hunk (filter (\<lambda>f. transforms f type \<noteq> None) filters) type kw)"
  by (simp add: FilterTool_apply_def Let_def)

lemma apply_func_is_wrap_cache:
  "type \<in> set VALID_FUNCS \<Longrightarrow> filter (\<lambda>f. funcs f type \<noteq> None) filters = [f] \<Longrightarrow>
     FilterTool_apply_func self filters type args kw ck =
       FilterTool_wrap_cache self (FuncKey args [f] type (case ck of None \<Rightarrow> [] | Some x \<Rightarrow> x))
         (producer_body self [f] type args kw)"
  by (simp add: FilterTool_apply_func_def Let_def)

lemma open_filters:
  "filter (\<lambda>f. funcs f ''open'' \<noteq> None) [less_f, sass_f] = [less_f, sass_f]"
  "filter (\<lambda>f. funcs f ''open'' \<noteq> None) [sass_f] = [sass_f]"
  by (simp_all add: less_f_def sass_f_def example_filter_def)

lemma apply_func_more_than_one:
  "type \<in> set VALID_FUNCS \<Longrightarrow> 1 < length (filter (\<lambda>f. funcs f type \<noteq> None) filters) \<Longrightarrow>
     FilterTool_apply_func self filters type args kw cache_key w =
       (Inl (MoreThanOneFilterError
               (''These filters cannot be combined: '' @
                  join '', '' (map name (filter (\<lambda>f. funcs f type \<noteq> None) filters)))
               (filter (\<lambda>f. funcs f type \<noteq> None) filters)), w)"
  by (auto simp: FilterTool_apply_func_def raise_apply Let_def)

section \<open>FilterTool: the cache discipline\<close>

text \<open>
  The closures against the chain of the specification: when the data of the hunk is read
  and opened as a stream, the closure of \<open>apply\<close> returns the content of the last output
  stream of the chain, having called every filter once, in order; the closure of
  \<open>apply_func\<close> returns the text its one filter's method wrote.
\<close>

lemma run_filters_pipeline_ok:
  "spec_pipeline type kw fs d = Inr d' \<Longrightarrow>
   run_filters type kw fs d w =
     (Inr d', w\<lparr>trace := trace w @ map (\<lambda>f. FilterCall f type) fs\<rparr>)"
proof (induction fs arbitrary: d w)
  case Nil
  then show ?case by (simp add: ok_apply)
next
  case (Cons f fs)
  from Cons.prems obtain m written where
    m: "transforms f type = Some m" "m kw d = Inr written"
       "spec_pipeline type kw fs (out_stream d written) = Inr d'"
    by (auto split: option.splits sum.splits)
  from Cons.IH[OF m(3)] m(1,2) show ?case
    by (simp add: and_then_apply log_event_apply)
qed

lemma run_filters_pipeline_error:
  "spec_pipeline type kw fs d = Inl e \<Longrightarrow>
   \<exists>n \<le> length fs. run_filters type kw fs d w =
     (Inl e, w\<lparr>trace := trace w @ map (\<lambda>f. FilterCall f type) (take n fs)\<rparr>)"
proof (induction fs arbitrary: d w)
  case Nil
  then show ?case by simp
next
  case (Cons f fs)
  show ?case
  proof (cases "transforms f type")
    case None
    with Cons.prems have "run_filters type kw (f # fs) d w = (Inl e, w)"
      by (simp add: raise_apply)
    then show ?thesis by (intro exI[of _ 0]) simp
  next
    case (Some m)
    let ?w1 = "w\<lparr>trace := trace w @ [FilterCall f type]\<rparr>"
    show ?thesis
    proof (cases "m kw d")
      case (Inl msg)
      with Some Cons.prems have "run_filters type kw (f # fs) d w = (Inl e, ?w1)"
        by (simp add: and_then_apply log_event_apply raise_apply)
      then show ?thesis by (intro exI[of _ 1]) simp
    next
      case (Inr written)
      with Some Cons.prems have "spec_pipeline type kw fs (out_stream d written) = Inl e"
        by simp
      from Cons.IH[OF this, of ?w1] obtain n where n: "n \<le> length fs"
        "run_filters type kw fs (out_stream d written) ?w1 =
           (Inl e, ?w1\<lparr>trace := trace ?w1 @ map (\<lambda>f. FilterCall f type) (take n fs)\<rparr>)"
        by blast
      with Some Inr show ?thesis
        by (intro exI[of _ "Suc n"]) (simp add: and_then_apply log_event_apply)
    qed
  qed
qed

lemma apply_func_body_pipeline_ok:
  "data rt hunk w = (Inr h, w1) \<Longrightarrow> open_stream h = Inr d \<Longrightarrow>
   spec_pipeline type (kwargs_final self kw) fs d = Inr d' \<Longrightarrow>
   apply_func_body rt self hunk fs type kw w =
     (Inr (getvalue d'), w1\<lparr>trace := trace w1 @ map (\<lambda>f. FilterCall f type) fs\<rparr>)"
  by (simp add: apply_func_body_def and_then_apply run_filters_pipeline_ok ok_apply)

lemma apply_func_body_pipeline_error:
  "data rt hunk w = (Inr h, w1) \<Longrightarrow> open_stream h = Inr d \<Longrightarrow>
   spec_pipeline type (kwargs_final self kw) fs d = Inl e \<Longrightarrow>
   \<exists>n \<le> length fs. apply_func_body rt self hunk fs type kw w =
     (Inl e, w1\<lparr>trace := trace w1 @ map (\<lambda>f. FilterCall f type) (take n fs)\<rparr>)"
proof -
  assume a: "data rt hunk w = (Inr h, w1)" "open_stream h = Inr d"
    "spec_pipeline type (kwargs_final self kw) fs d = Inl e"
  from run_filters_pipeline_error[OF a(3), of w1] obtain n where "n \<le> length fs"
    "run_filters type (kwargs_final self kw) fs d w1 =
       (Inl e, w1\<lparr>trace := trace w1 @ map (\<lambda>f. FilterCall f type) (take n fs)\<rparr>)"
    by blast
  with a(1,2) show ?thesis
    by (intro exI[of _ n]) (simp add: apply_func_body_def and_then_apply)
qed

lemma producer_body_call:
  "funcs p ptype = Some m \<Longrightarrow>
   producer_body self [p] ptype args kw w =
     (case m (kwargs_final self kw) args of
        Inl msg \<Rightarrow> (Inl (FilterRaised msg), w\<lparr>trace := trace w @ [FilterCall p ptype]\<rparr>)
      | Inr written \<Rightarrow> (Inr (VStr written), w\<lparr>trace := trace w @ [FilterCall p ptype]\<rparr>))"
  by (simp add: producer_body_def and_then_apply log_event_apply raise_apply ok_apply
      split: sum.splits)

lemma apply_hit:
  assumes "cache self = Some c" "type \<in> set VALID_TRANSFORMS"
    "filter (\<lambda>f. transforms f type \<noteq> None) filters \<noteq> []"
    "\<not> no_cache_read self"
    "\<not> in_False_None (cache_get c (apply_key hunk filters type) (store w))"
  shows "FilterTool_apply rt self hunk filters type kw w =
     (Inr (MemoryHunk (Data (cache_get c (apply_key hunk filters type) (store w))) []),
      w\<lparr>trace := trace w @ [CacheGet (apply_key hunk filters type)]\<rparr>)"
  using assms by (simp add: apply_is_wrap_cache wrap_cache_hit)

lemma apply_miss:
  assumes "cache self = Some c" "type \<in> set VALID_TRANSFORMS"
    "filter (\<lambda>f. transforms f type \<noteq> None) filters \<noteq> []"
    "no_cache_read self \<or> in_False_None (cache_get c (apply_key hunk filters type) (store w))"
    "data rt hunk (if no_cache_read self then w
                   else w\<lparr>trace := trace w @ [CacheGet (apply_key hunk filters type)]\<rparr>)
       = (Inr h, w1)"
    "open_stream h = Inr d"
    "spec_pipeline type (kwargs_final self kw)
       (filter (\<lambda>f. transforms f type \<noteq> None) filters) d = Inr d'"
  shows "FilterTool_apply rt self hunk filters type kw w =
     (Inr (MemoryHunk (Data (getvalue d')) []),
      w1\<lparr>trace := trace w1 @
                  map (\<lambda>f. FilterCall f type) (filter (\<lambda>f. transforms f type \<noteq> None) filters) @
                  [CacheSet (apply_key hunk filters type) (getvalue d')],
         store := cache_set c (apply_key hunk filters type) (getvalue d') (store w1)\<rparr>)"
proof -
  let ?k = "apply_key hunk filters type"
  let ?fs = "filter (\<lambda>f. transforms f type \<noteq> None) filters"
  let ?w0 = "if no_cache_read self then w else w\<lparr>trace := trace w @ [CacheGet ?k]\<rparr>"
  have body: "apply_func_body rt self hunk ?fs type kw ?w0 =
     (Inr (getvalue d'), w1\<lparr>trace := trace w1 @ map (\<lambda>f. FilterCall f type) ?fs\<rparr>)"
    using assms(5,6,7) by (rule apply_func_body_pipeline_ok)
  have "FilterTool_apply rt self hunk filters type kw w =
      (case apply_func_body rt self hunk ?fs type kw ?w0 of
         (Inl e, w2) \<Rightarrow> (Inl e, w2)
       | (Inr content, w2) \<Rightarrow>
           (Inr (MemoryHunk (Data content) []),
            w2\<lparr>trace := trace w2 @ [CacheSet ?k content],
               store := cache_set c ?k content (store w2)\<rparr>))"
    by (simp only: apply_is_wrap_cache[OF assms(2,3)] wrap_cache_compute[OF assms(1,4)])
  then show ?thesis
    by (simp only: body) simp
qed

lemma apply_func_hit:
  assumes "cache self = Some c" "ptype \<in> set VALID_FUNCS"
    "filter (\<lambda>f. funcs f ptype \<noteq> None) filters = [p]"
    "\<not> no_cache_read self"
    "\<not> in_False_None
        (cache_get c (FuncKey args [p] ptype (case cache_key of None \<Rightarrow> [] | Some x \<Rightarrow> x))
           (store w))"
  shows "FilterTool_apply_func self filters ptype args kw cache_key w =
     (Inr (MemoryHunk (Data
        (cache_get c (FuncKey args [p] ptype (case cache_key of None \<Rightarrow> [] | Some x \<Rightarrow> x))
           (store w))) []),
      w\<lparr>trace := trace w @
         [CacheGet (FuncKey args [p] ptype (case cache_key of None \<Rightarrow> [] | Some x \<Rightarrow> x))]\<rparr>)"
  using assms by (simp add: apply_func_is_wrap_cache wrap_cache_hit)

lemma apply_func_miss:
  assumes "cache self = Some c" "ptype \<in> set VALID_FUNCS"
    "filter (\<lambda>f. funcs f ptype \<noteq> None) filters = [p]"
    "no_cache_read self \<or> in_False_None
        (cache_get c (FuncKey args [p] ptype (case cache_key of None \<Rightarrow> [] | Some x \<Rightarrow> x))
           (store w))"
    "funcs p ptype = Some m" "m (kwargs_final self kw) args = Inr written"
  shows "FilterTool_apply_func self filters ptype args kw cache_key w =
     (Inr (MemoryHunk (Data (VStr written)) []),
      w\<lparr>trace := trace w @
           (if no_cache_read self then []
            else [CacheGet (FuncKey args [p] ptype
                    (case cache_key of None \<Rightarrow> [] | Some x \<Rightarrow> x))]) @
           [FilterCall p ptype,
            CacheSet (FuncKey args [p] ptype (case cache_key of None \<Rightarrow> [] | Some x \<Rightarrow> x))
              (VStr written)],
         store := cache_set c
           (FuncKey args [p] ptype (case cache_key of None \<Rightarrow> [] | Some x \<Rightarrow> x))
           (VStr written) (store w)\<rparr>)"
proof -
  let ?k = "FuncKey args [p] ptype (case cache_key of None \<Rightarrow> [] | Some x \<Rightarrow> x)"
  let ?w0 = "if no_cache_read self then w else w\<lparr>trace := trace w @ [CacheGet ?k]\<rparr>"
  have body: "producer_body self [p] ptype args kw ?w0 =
      (Inr (VStr written), ?w0\<lparr>trace := trace ?w0 @ [FilterCall p ptype]\<rparr>)"
    using assms(5,6) by (simp add: producer_body_call)
  have "FilterTool_apply_func self filters ptype args kw cache_key w =
      (case producer_body self [p] ptype args kw ?w0 of
         (Inl e, w2) \<Rightarrow> (Inl e, w2)
       | (Inr content, w2) \<Rightarrow>
           (Inr (MemoryHunk (Data content) []),
            w2\<lparr>trace := trace w2 @ [CacheSet ?k content],
               store := cache_set c ?k content (store w2)\<rparr>))"
    by (simp only: apply_func_is_wrap_cache[OF assms(2,3)] wrap_cache_compute[OF assms(1,4)])
  then show ?thesis
    by (simp only: body) simp
qed

text \<open>
  C2. With a cache object in the tool: unless \<open>no_cache_read\<close> is set, the cache is asked
  for the key, and an answer that is not in \<^verbatim>\<open>(False, None)\<close> is returned wrapped in a
  new \<open>MemoryHunk\<close>; the only event is that \<^verbatim>\<open>get\<close>, so no filter method is called.
  Otherwise (the answer is \<^verbatim>\<open>None\<close> or \<^verbatim>\<open>False\<close>, or \<open>no_cache_read\<close> is set) the
  function is run, its content is stored under the same key by \<^verbatim>\<open>set\<close> and
  returned wrapped in a new \<open>MemoryHunk\<close>; an exception of the function propagates.
  \<open>apply\<close> (with a filter that has the transform) and \<open>apply_func\<close> (with exactly one
  filter that has the producer) are this discipline around the filter chain and the
  producer. On a miss \<open>apply\<close> stores and returns the content of the last output stream
  of the chain run on the data of the hunk, after calling every filter of the chain in
  order; \<open>apply_func\<close> stores and returns the text that the method of its filter wrote,
  after calling it once.
\<close>

theorem wrap_cache_hit_or_compute_and_store:
  "cache self = Some c \<longrightarrow>
     (\<not> no_cache_read self \<and> \<not> in_False_None (cache_get c k (store w)) \<longrightarrow>
        FilterTool_wrap_cache self k func w =
          (Inr (MemoryHunk (Data (cache_get c k (store w))) []),
           w\<lparr>trace := trace w @ [CacheGet k]\<rparr>))
   \<and> (no_cache_read self \<or> in_False_None (cache_get c k (store w)) \<longrightarrow>
        FilterTool_wrap_cache self k func w =
          (case func (if no_cache_read self then w else w\<lparr>trace := trace w @ [CacheGet k]\<rparr>) of
             (Inl e, w2) \<Rightarrow> (Inl e, w2)
           | (Inr content, w2) \<Rightarrow>
               (Inr (MemoryHunk (Data content) []),
                w2\<lparr>trace := trace w2 @ [CacheSet k content],
                   store := cache_set c k content (store w2)\<rparr>)))
   \<and> (type \<in> set VALID_TRANSFORMS \<and> filter (\<lambda>f. transforms f type \<noteq> None) filters \<noteq> [] \<longrightarrow>
        FilterTool_apply rt self hunk filters type kw =
          FilterTool_wrap_cache self (apply_key hunk filters type)
            (apply_func_body rt self hunk (filter (\<lambda>f. transforms f type \<noteq> None) filters) type kw))
   \<and> (apply_func_body rt self hunk fs type kw w1 = (Inr content1, w2) \<longrightarrow>
        store w2 = store w1 \<and> trace w2 = trace w1 @ map (\<lambda>f. FilterCall f type) fs)
   \<and> (ptype \<in> set VALID_FUNCS \<and> filter (\<lambda>f. funcs f ptype \<noteq> None) pfilters = [p] \<longrightarrow>
        FilterTool_apply_func self pfilters ptype args kw cache_key =
          FilterTool_wrap_cache self
            (FuncKey args [p] ptype (case cache_key of None \<Rightarrow> [] | Some x \<Rightarrow> x))
            (producer_body self [p] ptype args kw))
   \<and> (producer_body self [p] ptype args kw w1 = (Inr content2, w3) \<longrightarrow>
        store w3 = store w1 \<and> trace w3 = trace w1 @ [FilterCall p ptype])
   \<and> (data rt hunk w1 = (Inr h, w4) \<and> open_stream h = Inr d \<and>
        spec_pipeline type (kwargs_final self kw) fs d = Inr d' \<longrightarrow>
        apply_func_body rt self hunk fs type kw w1 =
          (Inr (getvalue d'), w4\<lparr>trace := trace w4 @ map (\<lambda>f. FilterCall f type) fs\<rparr>))
   \<and> (funcs p ptype = Some m \<longrightarrow>
        producer_body self [p] ptype args kw w1 =
          (case m (kwargs_final self kw) args of
             Inl msg \<Rightarrow> (Inl (FilterRaised msg), w1\<lparr>trace := trace w1 @ [FilterCall p ptype]\<rparr>)
           | Inr written \<Rightarrow> (Inr (VStr written), w1\<lparr>trace := trace w1 @ [FilterCall p ptype]\<rparr>)))
   \<and> (type \<in> set VALID_TRANSFORMS \<and> filter (\<lambda>f. transforms f type \<noteq> None) filters \<noteq> [] \<and>
        \<not> no_cache_read self \<and>
        \<not> in_False_None (cache_get c (apply_key hunk filters type) (store w)) \<longrightarrow>
        FilterTool_apply rt self hunk filters type kw w =
          (Inr (MemoryHunk (Data (cache_get c (apply_key hunk filters type) (store w))) []),
           w\<lparr>trace := trace w @ [CacheGet (apply_key hunk filters type)]\<rparr>))
   \<and> (type \<in> set VALID_TRANSFORMS \<and> filter (\<lambda>f. transforms f type \<noteq> None) filters \<noteq> [] \<and>
        (no_cache_read self \<or>
         in_False_None (cache_get c (apply_key hunk filters type) (store w))) \<and>
        data rt hunk (if no_cache_read self then w
                      else w\<lparr>trace := trace w @ [CacheGet (apply_key hunk filters type)]\<rparr>)
          = (Inr h, w4) \<and>
        open_stream h = Inr d \<and>
        spec_pipeline type (kwargs_final self kw)
          (filter (\<lambda>f. transforms f type \<noteq> None) filters) d = Inr d' \<longrightarrow>
        FilterTool_apply rt self hunk filters type kw w =
          (Inr (MemoryHunk (Data (getvalue d')) []),
           w4\<lparr>trace := trace w4 @
                  map (\<lambda>f. FilterCall f type) (filter (\<lambda>f. transforms f type \<noteq> None) filters) @
                  [CacheSet (apply_key hunk filters type) (getvalue d')],
              store := cache_set c (apply_key hunk filters type) (getvalue d') (store w4)\<rparr>))
   \<and> (ptype \<in> set VALID_FUNCS \<and> filter (\<lambda>f. funcs f ptype \<noteq> None) pfilters = [p] \<and>
        \<not> no_cache_read self \<and>
        \<not> in_False_None
            (cache_get c (FuncKey args [p] ptype (case cache_key of None \<Rightarrow> [] | Some x \<Rightarrow> x))
               (store w)) \<longrightarrow>
        FilterTool_apply_func self pfilters ptype args kw cache_key w =
          (Inr (MemoryHunk (Data
             (cache_get c (FuncKey args [p] ptype (case cache_key of None \<Rightarrow> [] | Some x \<Rightarrow> x))
                (store w))) []),
           w\<lparr>trace := trace w @
              [CacheGet (FuncKey args [p] ptype (case cache_key of None \<Rightarrow> [] | Some x \<Rightarrow> x))]\<rparr>))
   \<and> (ptype \<in> set VALID_FUNCS \<and> filter (\<lambda>f. funcs f ptype \<noteq> None) pfilters = [p] \<and>
        (no_cache_read self \<or> in_False_None
            (cache_get c (FuncKey args [p] ptype (case cache_key of None \<Rightarrow> [] | Some x \<Rightarrow> x))
               (store w))) \<and>
        funcs p ptype = Some m \<and> m (kwargs_final self kw) args = Inr written \<longrightarrow>
        FilterTool_apply_func self pfilters ptype args kw cache_key w =
          (Inr (MemoryHunk (Data (VStr written)) []),
           w\<lparr>trace := trace w @
                (if no_cache_read self then []
                 else [CacheGet (FuncKey args [p] ptype
                         (case cache_key of None \<Rightarrow> [] | Some x \<Rightarrow> x))]) @
                [FilterCall p ptype,
                 CacheSet (FuncKey args [p] ptype (case cache_key of None \<Rightarrow> [] | Some x \<Rightarrow> x))
                   (VStr written)],
              store := cache_set c
                (FuncKey args [p] ptype (case cache_key of None \<Rightarrow> [] | Some x \<Rightarrow> x))
                (VStr written) (store w)\<rparr>))"
proof (intro impI conjI)
  assume "apply_func_body rt self hunk fs type kw w1 = (Inr content1, w2)"
  from apply_func_body_frame[OF this]
  show "store w2 = store w1" "trace w2 = trace w1 @ map (\<lambda>f. FilterCall f type) fs"
    by auto
next
  assume "producer_body self [p] ptype args kw w1 = (Inr content2, w3)"
  from producer_body_frame[OF this]
  show "store w3 = store w1" "trace w3 = trace w1 @ [FilterCall p ptype]"
    by auto
next
  assume "cache self = Some c"
    "type \<in> set VALID_TRANSFORMS \<and> filter (\<lambda>f. transforms f type \<noteq> None) filters \<noteq> [] \<and>
        (no_cache_read self \<or>
         in_False_None (cache_get c (apply_key hunk filters type) (store w))) \<and>
        data rt hunk (if no_cache_read self then w
                      else w\<lparr>trace := trace w @ [CacheGet (apply_key hunk filters type)]\<rparr>)
          = (Inr h, w4) \<and>
        open_stream h = Inr d \<and>
        spec_pipeline type (kwargs_final self kw)
          (filter (\<lambda>f. transforms f type \<noteq> None) filters) d = Inr d'"
  then show "FilterTool_apply rt self hunk filters type kw w =
          (Inr (MemoryHunk (Data (getvalue d')) []),
           w4\<lparr>trace := trace w4 @
                  map (\<lambda>f. FilterCall f type) (filter (\<lambda>f. transforms f type \<noteq> None) filters) @
                  [CacheSet (apply_key hunk filters type) (getvalue d')],
              store := cache_set c (apply_key hunk filters type) (getvalue d') (store w4)\<rparr>)"
    by (intro apply_miss) blast+
next
  assume "cache self = Some c"
    "ptype \<in> set VALID_FUNCS \<and> filter (\<lambda>f. funcs f ptype \<noteq> None) pfilters = [p] \<and>
        (no_cache_read self \<or> in_False_None
            (cache_get c (FuncKey args [p] ptype (case cache_key of None \<Rightarrow> [] | Some x \<Rightarrow> x))
               (store w))) \<and>
        funcs p ptype = Some m \<and> m (kwargs_final self kw) args = Inr written"
  then show "FilterTool_apply_func self pfilters ptype args kw cache_key w =
          (Inr (MemoryHunk (Data (VStr written)) []),
           w\<lparr>trace := trace w @
                (if no_cache_read self then []
                 else [CacheGet (FuncKey args [p] ptype
                         (case cache_key of None \<Rightarrow> [] | Some x \<Rightarrow> x))]) @
                [FilterCall p ptype,
                 CacheSet (FuncKey args [p] ptype (case cache_key of None \<Rightarrow> [] | Some x \<Rightarrow> x))
                   (VStr written)],
              store := cache_set c
                (FuncKey args [p] ptype (case cache_key of None \<Rightarrow> [] | Some x \<Rightarrow> x))
                (VStr written) (store w)\<rparr>)"
    by (intro apply_func_miss) blast+
qed (simp_all add: wrap_cache_hit wrap_cache_compute apply_is_wrap_cache apply_func_is_wrap_cache
      apply_func_body_pipeline_ok producer_body_call apply_hit apply_func_hit)

lemma cssmin_output: "filter (\<lambda>f. transforms f ''output'' \<noteq> None) [cssmin] = [cssmin]"
  by (simp add: cssmin_def example_filter_def)

lemma apply_cssmin_body:
  "files w ''a.css'' = Some ''a{color:red}'' \<Longrightarrow>
   apply_func_body example_runtime (example_tool c nr) (FileHunk ''a.css'') [cssmin] ''output'' None w
     = (Inr (VStr ''cssmina{color:red}''), w\<lparr>trace := trace w @ [FilterCall cssmin ''output'']\<rparr>)"
  by (simp add: apply_func_body_def and_then_apply example_runtime_def ok_apply log_event_apply
      cssmin_def example_filter_def)

text \<open>
  The theorem on the file \<open>a.css\<close> with the filter \<open>cssmin\<close>, and on the producer
  \<open>open\<close> of \<open>sass\<close>: with \<open>cached\<close> in the cache each call returns it after one
  \<^verbatim>\<open>get\<close>; with an empty cache each call runs its filter and stores what the filter
  wrote.
\<close>

theorem wrap_cache_hit_or_compute_and_store_witness:
  "FilterTool_apply example_runtime (example_tool (Some example_cache) False) (FileHunk ''a.css'')
     [cssmin] ''output'' None (example_world no_network (VStr ''cached''))
   = (Inr (MemoryHunk (Data (VStr ''cached'')) []),
      (example_world no_network (VStr ''cached''))
        \<lparr>trace := [CacheGet (apply_key (FileHunk ''a.css'') [cssmin] ''output'')]\<rparr>)
   \<and> FilterTool_apply example_runtime (example_tool (Some example_cache) False) (FileHunk ''a.css'')
     [cssmin] ''output'' None (example_world no_network VNone)
   = (Inr (MemoryHunk (Data (VStr ''cssmina{color:red}'')) []),
      (example_world no_network VNone)
        \<lparr>trace := [CacheGet (apply_key (FileHunk ''a.css'') [cssmin] ''output''),
                    FilterCall cssmin ''output'',
                    CacheSet (apply_key (FileHunk ''a.css'') [cssmin] ''output'')
                      (VStr ''cssmina{color:red}'')],
         store := VStr ''cssmina{color:red}''\<rparr>)
   \<and> FilterTool_apply_func (example_tool (Some example_cache) False) [cssmin, sass_f]
     ''open'' [] None None (example_world no_network (VStr ''cached''))
   = (Inr (MemoryHunk (Data (VStr ''cached'')) []),
      (example_world no_network (VStr ''cached''))
        \<lparr>trace := [CacheGet (FuncKey [] [sass_f] ''open'' [])]\<rparr>)
   \<and> FilterTool_apply_func (example_tool (Some example_cache) False) [cssmin, sass_f]
     ''open'' [] None None (example_world no_network VNone)
   = (Inr (MemoryHunk (Data (VStr ''sass'')) []),
      (example_world no_network VNone)
        \<lparr>trace := [CacheGet (FuncKey [] [sass_f] ''open'' []),
                    FilterCall sass_f ''open'',
                    CacheSet (FuncKey [] [sass_f] ''open'' []) (VStr ''sass'')],
         store := VStr ''sass''\<rparr>)"
proof -
  let ?self = "example_tool (Some example_cache) False"
  let ?k = "apply_key (FileHunk ''a.css'') [cssmin] ''output''"
  let ?kf = "FuncKey [] [sass_f] ''open'' (case None of None \<Rightarrow> [] | Some x \<Rightarrow> x)"
  let ?hit = "example_world no_network (VStr ''cached'')"
  let ?miss = "example_world no_network VNone"
  let ?got = "?miss\<lparr>trace := trace ?miss @ [CacheGet ?k]\<rparr>"
  have c: "cache ?self = Some example_cache" and nr: "\<not> no_cache_read ?self"
    by (simp_all add: example_tool_def)
  have v: "''output'' \<in> set VALID_TRANSFORMS" "''open'' \<in> set VALID_FUNCS"
    by (simp_all add: VALID_TRANSFORMS_def VALID_FUNCS_def)
  have some: "filter (\<lambda>f. transforms f ''output'' \<noteq> None) [cssmin] \<noteq> []"
    by (simp only: cssmin_output) simp
  have one: "filter (\<lambda>f. funcs f ''open'' \<noteq> None) [cssmin, sass_f] = [sass_f]"
    by (simp add: cssmin_def sass_f_def example_filter_def)
  have hit: "\<not> in_False_None (cache_get example_cache ?k (store ?hit))"
    "\<not> in_False_None (cache_get example_cache ?kf (store ?hit))"
    by (simp_all add: in_False_None_def example_cache_def example_world_def)
  have miss: "in_False_None (cache_get example_cache ?k (store ?miss))"
    "in_False_None (cache_get example_cache ?kf (store ?miss))"
    by (simp_all add: in_False_None_def example_cache_def example_world_def)
  have rd: "data example_runtime (FileHunk ''a.css'')
              (if no_cache_read ?self then ?miss else ?got)
            = (Inr (VStr ''a{color:red}''), ?got)"
    by (simp add: example_tool_def example_world_def example_runtime_def)
  have op: "open_stream (VStr ''a{color:red}'') = Inr (StringIO ''a{color:red}'')"
    by simp
  have "spec_pipeline ''output'' (kwargs_final ?self None) [cssmin] (StringIO ''a{color:red}'')
      = Inr (StringIO ''cssmina{color:red}'')"
    by (simp add: cssmin_def example_filter_def)
  then have pipe: "spec_pipeline ''output'' (kwargs_final ?self None)
      (filter (\<lambda>f. transforms f ''output'' \<noteq> None) [cssmin]) (StringIO ''a{color:red}'')
      = Inr (StringIO ''cssmina{color:red}'')"
    by (simp only: cssmin_output)
  have sass: "funcs sass_f ''open'' = Some (\<lambda>kw args. Inr ''sass'')"
    "(\<lambda>kw args. Inr ''sass'') (kwargs_final ?self None) [] = (Inr ''sass'' :: string + string)"
    by (simp_all add: sass_f_def example_filter_def)
  have first: "FilterTool_apply example_runtime ?self (FileHunk ''a.css'') [cssmin] ''output'' None ?hit
      = (Inr (MemoryHunk (Data (cache_get example_cache ?k (store ?hit))) []),
         ?hit\<lparr>trace := trace ?hit @ [CacheGet ?k]\<rparr>)"
    by (rule wrap_cache_hit_or_compute_and_store
      [where self = ?self and c = example_cache and w = ?hit and type = "''output''"
         and filters = "[cssmin]" and rt = example_runtime and hunk = "FileHunk ''a.css''"
         and kw = None, THEN mp, OF c, THEN conjunct2, THEN conjunct2, THEN conjunct2,
         THEN conjunct2, THEN conjunct2, THEN conjunct2, THEN conjunct2, THEN conjunct2,
         THEN conjunct1, THEN mp])
       (intro conjI v(1) some nr hit(1))
  have second: "FilterTool_apply example_runtime ?self (FileHunk ''a.css'') [cssmin] ''output'' None ?miss
      = (Inr (MemoryHunk (Data (getvalue (StringIO ''cssmina{color:red}''))) []),
         ?got\<lparr>trace := trace ?got @
                  map (\<lambda>f. FilterCall f ''output'')
                    (filter (\<lambda>f. transforms f ''output'' \<noteq> None) [cssmin]) @
                  [CacheSet ?k (getvalue (StringIO ''cssmina{color:red}''))],
              store := cache_set example_cache ?k (getvalue (StringIO ''cssmina{color:red}''))
                         (store ?got)\<rparr>)"
    by (rule wrap_cache_hit_or_compute_and_store
      [where self = ?self and c = example_cache and w = ?miss and type = "''output''"
         and filters = "[cssmin]" and rt = example_runtime and hunk = "FileHunk ''a.css''"
         and kw = None and h = "VStr ''a{color:red}''" and ?w4.0 = ?got
         and d = "StringIO ''a{color:red}''" and d' = "StringIO ''cssmina{color:red}''",
         THEN mp, OF c, THEN conjunct2, THEN conjunct2, THEN conjunct2,
         THEN conjunct2, THEN conjunct2, THEN conjunct2, THEN conjunct2, THEN conjunct2,
         THEN conjunct2, THEN conjunct1, THEN mp])
       (intro conjI v(1) some disjI2 miss(1) rd op pipe)
  have third: "FilterTool_apply_func ?self [cssmin, sass_f] ''open'' [] None None ?hit
      = (Inr (MemoryHunk (Data (cache_get example_cache ?kf (store ?hit))) []),
         ?hit\<lparr>trace := trace ?hit @ [CacheGet ?kf]\<rparr>)"
    by (rule wrap_cache_hit_or_compute_and_store
      [where self = ?self and c = example_cache and w = ?hit and ptype = "''open''"
         and pfilters = "[cssmin, sass_f]" and p = sass_f and args = "[]" and kw = None
         and cache_key = None, THEN mp, OF c, THEN conjunct2, THEN conjunct2, THEN conjunct2,
         THEN conjunct2, THEN conjunct2, THEN conjunct2, THEN conjunct2, THEN conjunct2,
         THEN conjunct2, THEN conjunct2, THEN conjunct1, THEN mp])
       (intro conjI v(2) one nr hit(2))
  have fourth: "FilterTool_apply_func ?self [cssmin, sass_f] ''open'' [] None None ?miss
      = (Inr (MemoryHunk (Data (VStr ''sass'')) []),
         ?miss\<lparr>trace := trace ?miss @
                (if no_cache_read ?self then [] else [CacheGet ?kf]) @
                [FilterCall sass_f ''open'', CacheSet ?kf (VStr ''sass'')],
              store := cache_set example_cache ?kf (VStr ''sass'') (store ?miss)\<rparr>)"
    by (rule wrap_cache_hit_or_compute_and_store
      [where self = ?self and c = example_cache and w = ?miss and ptype = "''open''"
         and pfilters = "[cssmin, sass_f]" and p = sass_f and args = "[]" and kw = None
         and cache_key = None and m = "\<lambda>kw args. Inr ''sass''" and written = "''sass''",
         THEN mp, OF c, THEN conjunct2, THEN conjunct2, THEN conjunct2,
         THEN conjunct2, THEN conjunct2, THEN conjunct2, THEN conjunct2, THEN conjunct2,
         THEN conjunct2, THEN conjunct2, THEN conjunct2, THEN mp])
       (intro conjI v(2) one disjI2 miss(2) sass)
  from first have first': "FilterTool_apply example_runtime ?self (FileHunk ''a.css'')
      [cssmin] ''output'' None ?hit
      = (Inr (MemoryHunk (Data (VStr ''cached'')) []), ?hit\<lparr>trace := [CacheGet ?k]\<rparr>)"
    by (simp add: example_cache_def example_world_def)
  from second have second': "FilterTool_apply example_runtime ?self (FileHunk ''a.css'')
      [cssmin] ''output'' None ?miss
      = (Inr (MemoryHunk (Data (VStr ''cssmina{color:red}'')) []),
         ?miss\<lparr>trace := [CacheGet ?k, FilterCall cssmin ''output'',
                           CacheSet ?k (VStr ''cssmina{color:red}'')],
                store := VStr ''cssmina{color:red}''\<rparr>)"
    by (simp only: cssmin_output) (simp add: example_cache_def example_world_def)
  from third have third': "FilterTool_apply_func ?self [cssmin, sass_f] ''open'' [] None None ?hit
      = (Inr (MemoryHunk (Data (VStr ''cached'')) []),
         ?hit\<lparr>trace := [CacheGet (FuncKey [] [sass_f] ''open'' [])]\<rparr>)"
    by (simp add: example_cache_def example_world_def)
  from fourth have fourth': "FilterTool_apply_func ?self [cssmin, sass_f] ''open'' [] None None ?miss
      = (Inr (MemoryHunk (Data (VStr ''sass'')) []),
         ?miss\<lparr>trace := [CacheGet (FuncKey [] [sass_f] ''open'' []),
                           FilterCall sass_f ''open'',
                           CacheSet (FuncKey [] [sass_f] ''open'' []) (VStr ''sass'')],
                store := VStr ''sass''\<rparr>)"
    by (simp add: example_cache_def example_world_def example_tool_def)
  from first' second' third' fourth' show ?thesis by simp
qed

section \<open>FilterTool without a cache\<close>

text \<open>
  C10, as the claim states it, fails: a tool without a cache, given two filters that
  both have the producer \<open>open\<close>, raises \<open>MoreThanOneFilterError\<close>; no producer runs and
  no hunk is returned.
\<close>

theorem apply_func_two_producers_without_cache_counterexample:
  "cache (example_tool None False) = None
   \<and> filter (\<lambda>f. funcs f ''open'' \<noteq> None) [less_f, sass_f] \<noteq> []
   \<and> FilterTool_apply_func (example_tool None False) [less_f, sass_f] ''open'' [] None None
        (example_world no_network VNone)
      = (Inl (MoreThanOneFilterError ''These filters cannot be combined: less, sass''
                [less_f, sass_f]),
         example_world no_network VNone)"
proof -
  have names: "map name [less_f, sass_f] = [''less'', ''sass'']"
    by (simp add: less_f_def sass_f_def example_filter_def)
  have v: "''open'' \<in> set VALID_FUNCS"
    by (simp add: VALID_FUNCS_def)
  have two: "1 < length (filter (\<lambda>f. funcs f ''open'' \<noteq> None) [less_f, sass_f])"
    by (simp only: open_filters) simp
  have "FilterTool_apply_func (example_tool None False) [less_f, sass_f] ''open'' [] None None
        (example_world no_network VNone)
      = (Inl (MoreThanOneFilterError
               (''These filters cannot be combined: '' @ join '', '' (map name [less_f, sass_f]))
               [less_f, sass_f]), example_world no_network VNone)"
    using apply_func_more_than_one[OF v two] by (simp only: open_filters)
  moreover have "name less_f = ''less''" "name sass_f = ''sass''"
    "funcs less_f ''open'' \<noteq> None" "funcs sass_f ''open'' \<noteq> None"
    by (simp_all add: less_f_def sass_f_def example_filter_def)
  ultimately show ?thesis
    by (simp add: example_tool_def)
qed

text \<open>
  C10, amended. A tool without a cache never calls a cache: whatever the inputs and the
  outcome, \<open>apply\<close> and \<open>apply_func\<close> leave the cache's store as it was and add only
  filter calls to the trace. \<open>apply\<close> with at least one filter that has the transform,
  and \<open>apply_func\<close> with exactly one filter that has the producer, run the chain or the
  producer and return its content in a new \<open>MemoryHunk\<close> (an exception of the chain or
  producer propagates); a chain or producer that returns has called each of its filters.
\<close>

theorem no_cache_no_cache_calls:
  "cache self = None \<longrightarrow>
     (FilterTool_apply rt self hunk filters type kw w = (r, w') \<longrightarrow>
        store w' = store w \<and>
        (\<exists>called. trace w' = trace w @ map (\<lambda>f. FilterCall f type) called))
   \<and> (FilterTool_apply_func self filters ptype args kw cache_key w = (r', w'') \<longrightarrow>
        store w'' = store w \<and>
        (\<exists>called. trace w'' = trace w @ map (\<lambda>f. FilterCall f ptype) called))
   \<and> (type \<in> set VALID_TRANSFORMS \<and> filter (\<lambda>f. transforms f type \<noteq> None) filters \<noteq> [] \<longrightarrow>
        FilterTool_apply rt self hunk filters type kw w =
          (case apply_func_body rt self hunk
                  (filter (\<lambda>f. transforms f type \<noteq> None) filters) type kw w of
             (Inl e, w2) \<Rightarrow> (Inl e, w2)
           | (Inr content, w2) \<Rightarrow> (Inr (MemoryHunk (Data content) []), w2)))
   \<and> (apply_func_body rt self hunk fs type kw w = (Inr content1, w2) \<longrightarrow>
        store w2 = store w \<and> trace w2 = trace w @ map (\<lambda>f. FilterCall f type) fs)
   \<and> (ptype \<in> set VALID_FUNCS \<and> filter (\<lambda>f. funcs f ptype \<noteq> None) filters = [p] \<longrightarrow>
        FilterTool_apply_func self filters ptype args kw cache_key w =
          (case producer_body self [p] ptype args kw w of
             (Inl e, w2) \<Rightarrow> (Inl e, w2)
           | (Inr content, w2) \<Rightarrow> (Inr (MemoryHunk (Data content) []), w2)))
   \<and> (producer_body self [p] ptype args kw w = (Inr content2, w3) \<longrightarrow>
        store w3 = store w \<and> trace w3 = trace w @ [FilterCall p ptype])"
proof (intro impI conjI)
  assume nc: "cache self = None"
  {
    assume a: "FilterTool_apply rt self hunk filters type kw w = (r, w')"
    let ?fs = "filter (\<lambda>f. transforms f type \<noteq> None) filters"
    have "store w' = store w \<and>
        (\<exists>called. trace w' = trace w @ map (\<lambda>f. FilterCall f type) called)"
    proof (cases "type \<in> set VALID_TRANSFORMS \<and> ?fs \<noteq> []")
      case False
      with a have "w' = w"
        by (auto simp: FilterTool_apply_def raise_apply ok_apply Let_def split: if_splits)
      then show ?thesis by (intro conjI exI[of _ "[]"]) simp_all
    next
      case True
      obtain r0 w0 where b: "apply_func_body rt self hunk ?fs type kw w = (r0, w0)"
        by (cases "apply_func_body rt self hunk ?fs type kw w")
      with a True nc have "w' = w0"
        by (auto simp: apply_is_wrap_cache wrap_cache_no_cache split: sum.splits)
      with apply_func_body_frame[OF b] show ?thesis by blast
    qed
  }
  then show "store w' = store w"
    "\<exists>called. trace w' = trace w @ map (\<lambda>f. FilterCall f type) called"
    if "FilterTool_apply rt self hunk filters type kw w = (r, w')"
    using that by blast+
  {
    assume a: "FilterTool_apply_func self filters ptype args kw cache_key w = (r', w'')"
    let ?fs = "filter (\<lambda>f. funcs f ptype \<noteq> None) filters"
    have "store w'' = store w \<and>
        (\<exists>called. trace w'' = trace w @ map (\<lambda>f. FilterCall f ptype) called)"
    proof (cases "ptype \<in> set VALID_FUNCS \<and> length ?fs = 1")
      case False
      with a have "w'' = w"
        by (cases ?fs) (auto simp: FilterTool_apply_func_def raise_apply Let_def split: if_splits)
      then show ?thesis by (intro conjI exI[of _ "[]"]) simp_all
    next
      case True
      then obtain q where q: "?fs = [q]"
        by (cases ?fs) auto
      obtain r0 w0 where b: "producer_body self [q] ptype args kw w = (r0, w0)"
        by (cases "producer_body self [q] ptype args kw w")
      with a True nc q have "w'' = w0"
        by (auto simp: apply_func_is_wrap_cache wrap_cache_no_cache split: sum.splits)
      with producer_body_frame[OF b] show ?thesis by blast
    qed
  }
  then show "store w'' = store w"
    "\<exists>called. trace w'' = trace w @ map (\<lambda>f. FilterCall f ptype) called"
    if "FilterTool_apply_func self filters ptype args kw cache_key w = (r', w'')"
    using that by blast+
  show "FilterTool_apply rt self hunk filters type kw w =
          (case apply_func_body rt self hunk
                  (filter (\<lambda>f. transforms f type \<noteq> None) filters) type kw w of
             (Inl e, w2) \<Rightarrow> (Inl e, w2)
           | (Inr content, w2) \<Rightarrow> (Inr (MemoryHunk (Data content) []), w2))"
    if "type \<in> set VALID_TRANSFORMS \<and> filter (\<lambda>f. transforms f type \<noteq> None) filters \<noteq> []"
    using that nc by (simp add: apply_is_wrap_cache wrap_cache_no_cache)
  show "FilterTool_apply_func self filters ptype args kw cache_key w =
          (case producer_body self [p] ptype args kw w of
             (Inl e, w2) \<Rightarrow> (Inl e, w2)
           | (Inr content, w2) \<Rightarrow> (Inr (MemoryHunk (Data content) []), w2))"
    if "ptype \<in> set VALID_FUNCS \<and> filter (\<lambda>f. funcs f ptype \<noteq> None) filters = [p]"
    using that nc by (simp add: apply_func_is_wrap_cache wrap_cache_no_cache)
  show "store w2 = store w" "trace w2 = trace w @ map (\<lambda>f. FilterCall f type) fs"
    if "apply_func_body rt self hunk fs type kw w = (Inr content1, w2)"
    using apply_func_body_frame[OF that] by auto
  show "store w3 = store w" "trace w3 = trace w @ [FilterCall p ptype]"
    if "producer_body self [p] ptype args kw w = (Inr content2, w3)"
    using producer_body_frame[OF that] by auto
qed

lemma apply_sass_body:
  "producer_body (example_tool c nr) [sass_f] ''open'' [] None w
     = (Inr (VStr ''sass''), w\<lparr>trace := trace w @ [FilterCall sass_f ''open'']\<rparr>)"
  by (simp add: producer_body_def and_then_apply ok_apply log_event_apply
      sass_f_def example_filter_def)

text \<open>
  The amended theorem on a tool without a cache: \<open>apply\<close> runs \<open>cssmin\<close> on the file,
  \<open>apply_func\<close> runs the one filter that has \<open>open\<close>, and the traces hold the filter
  calls only.
\<close>

theorem no_cache_no_cache_calls_witness:
  "FilterTool_apply example_runtime (example_tool None False) (FileHunk ''a.css'')
     [cssmin] ''output'' None (example_world no_network VNone)
   = (Inr (MemoryHunk (Data (VStr ''cssmina{color:red}'')) []),
      (example_world no_network VNone)\<lparr>trace := [FilterCall cssmin ''output'']\<rparr>)
   \<and> FilterTool_apply_func (example_tool None False) [cssmin, sass_f] ''open'' [] None None
       (example_world no_network VNone)
   = (Inr (MemoryHunk (Data (VStr ''sass'')) []),
      (example_world no_network VNone)\<lparr>trace := [FilterCall sass_f ''open'']\<rparr>)"
proof -
  let ?self = "example_tool None False"
  let ?w = "example_world no_network VNone"
  have c: "cache ?self = None"
    by (simp add: example_tool_def)
  have v: "''output'' \<in> set VALID_TRANSFORMS" "''open'' \<in> set VALID_FUNCS"
    by (simp_all add: VALID_TRANSFORMS_def VALID_FUNCS_def)
  have some: "filter (\<lambda>f. transforms f ''output'' \<noteq> None) [cssmin] \<noteq> []"
    by (simp only: cssmin_output) simp
  have one: "filter (\<lambda>f. funcs f ''open'' \<noteq> None) [cssmin, sass_f] = [sass_f]"
    by (simp add: cssmin_def sass_f_def example_filter_def)
  have fl: "files ?w ''a.css'' = Some ''a{color:red}''" and tr: "trace ?w = []"
    by (simp_all add: example_world_def)
  have "FilterTool_apply example_runtime ?self (FileHunk ''a.css'') [cssmin] ''output'' None ?w
      = (case apply_func_body example_runtime ?self (FileHunk ''a.css'')
                (filter (\<lambda>f. transforms f ''output'' \<noteq> None) [cssmin]) ''output'' None ?w of
           (Inl e, w2) \<Rightarrow> (Inl e, w2)
         | (Inr content, w2) \<Rightarrow> (Inr (MemoryHunk (Data content) []), w2))"
    using no_cache_no_cache_calls
      [of ?self example_runtime "FileHunk ''a.css''" "[cssmin]" "''output''" None ?w]
      c v(1) some
    by blast
  then have first: "FilterTool_apply example_runtime ?self (FileHunk ''a.css'')
     [cssmin] ''output'' None ?w
   = (Inr (MemoryHunk (Data (VStr ''cssmina{color:red}'')) []),
      ?w\<lparr>trace := [FilterCall cssmin ''output'']\<rparr>)"
    by (simp only: cssmin_output apply_cssmin_body[OF fl] tr) simp
  have "FilterTool_apply_func ?self [cssmin, sass_f] ''open'' [] None None ?w
      = (case producer_body ?self [sass_f] ''open'' [] None ?w of
           (Inl e, w2) \<Rightarrow> (Inl e, w2)
         | (Inr content, w2) \<Rightarrow> (Inr (MemoryHunk (Data content) []), w2))"
    using no_cache_no_cache_calls
      [of ?self _ _ "[cssmin, sass_f]" _ None ?w _ _ "''open''" "[]" None _ _ _ _ _ sass_f]
      c v(2) one
    by blast
  then have second: "FilterTool_apply_func ?self [cssmin, sass_f] ''open'' [] None None ?w
   = (Inr (MemoryHunk (Data (VStr ''sass'')) []), ?w\<lparr>trace := [FilterCall sass_f ''open'']\<rparr>)"
    by (simp only: apply_sass_body tr) simp
  from first second show ?thesis by simp
qed

section \<open>Hunks are what they contain\<close>

lemma tuple_eq_refl: "tuple_eq eq xs xs"
  by (simp add: tuple_eq_def list_all2_same)

lemma dict_set_then_get:
  assumes "data rt h1 w = (Inr v, w)" "data rt h2 w = (Inr v, w)"
  shows "\<exists>d. dict_set rt [] (apply_key h1 filters type) content w = (Inr d, w)
           \<and> dict_get rt d (apply_key h2 filters type) w = (Inr content, w)"
proof -
  let ?fs = "filter (\<lambda>f. transforms f type \<noteq> None) filters"
  let ?kh = "tuple_hash rt [hash_of rt (VStr ''hunk''), hash_of rt v,
               tuple_hash rt (map (filter_hash rt) ?fs), hash_of rt (VStr type)]"
  have h1: "key_hash rt (HunkKey h1 ?fs type) w = (Inr ?kh, w)"
    using assms(1) by (simp add: BaseHunk_hash_def and_then_apply ok_apply)
  have h2: "key_hash rt (HunkKey h2 ?fs type) w = (Inr ?kh, w)"
    using assms(2) by (simp add: BaseHunk_hash_def and_then_apply ok_apply)
  have eq: "key_eq rt (HunkKey h1 ?fs type) (HunkKey h2 ?fs type) w = (Inr True, w)"
    using assms
    by (simp add: BaseHunk_hash_def BaseHunk_eq_def and_then_apply ok_apply tuple_eq_refl)
  have s: "dict_set rt [] (apply_key h1 filters type) content w
      = (Inr [(?kh, HunkKey h1 ?fs type, content)], w)"
    using h1 by (simp add: dict_set_def apply_key_def and_then_apply ok_apply)
  have g: "dict_get rt [(?kh, HunkKey h1 ?fs type, content)] (apply_key h2 filters type) w
      = (Inr content, w)"
    using h2 eq by (simp add: dict_get_def apply_key_def and_then_apply ok_apply)
  from s g show ?thesis by blast
qed

text \<open>
  C1. Two hunks, of any class and whatever their path, URL or list of files, whose
  \<open>data()\<close> is the same value \<open>v\<close> (read one after the other, as the comparison reads
  them) have the same hash, the hash of \<open>v\<close>, and are equal; and the cache keys that
  \<open>apply\<close> builds for them, with the same filter list and the same type, are equal as
  Python compares tuples and have the same hash. When reading the two hunks leaves the
  world as it was, an entry stored under the key of the first in an empty \<^verbatim>\<open>dict\<close>
  is what a lookup of the key of the second returns.
\<close>

theorem equal_data_equal_hunks_and_keys:
  "data rt h1 w = (Inr v, w1) \<and> data rt h2 w1 = (Inr v, w2) \<longrightarrow>
     BaseHunk_hash rt h1 w = (Inr (hash_of rt v), w1)
   \<and> BaseHunk_hash rt h2 w1 = (Inr (hash_of rt v), w2)
   \<and> BaseHunk_eq rt h1 h2 w = (Inr True, w2)
   \<and> key_eq rt (apply_key h1 filters type) (apply_key h2 filters type) w = (Inr True, w2)
   \<and> (\<exists>kh. key_hash rt (apply_key h1 filters type) w = (Inr kh, w1)
          \<and> key_hash rt (apply_key h2 filters type) w1 = (Inr kh, w2))
   \<and> (w1 = w \<and> w2 = w \<longrightarrow>
        (\<exists>d. dict_set rt [] (apply_key h1 filters type) content w = (Inr d, w)
           \<and> dict_get rt d (apply_key h2 filters type) w = (Inr content, w)))"
proof (intro impI conjI)
  assume a: "data rt h1 w = (Inr v, w1) \<and> data rt h2 w1 = (Inr v, w2)"
  then show "BaseHunk_hash rt h1 w = (Inr (hash_of rt v), w1)"
    "BaseHunk_hash rt h2 w1 = (Inr (hash_of rt v), w2)"
    "BaseHunk_eq rt h1 h2 w = (Inr True, w2)"
    "key_eq rt (apply_key h1 filters type) (apply_key h2 filters type) w = (Inr True, w2)"
    "\<exists>kh. key_hash rt (apply_key h1 filters type) w = (Inr kh, w1)
          \<and> key_hash rt (apply_key h2 filters type) w1 = (Inr kh, w2)"
    by (simp_all add: BaseHunk_hash_def BaseHunk_eq_def apply_key_def and_then_apply ok_apply
        tuple_eq_refl)
  assume "w1 = w \<and> w2 = w"
  with a have "data rt h1 w = (Inr v, w)" "data rt h2 w = (Inr v, w)"
    by simp_all
  then show "\<exists>d. dict_set rt [] (apply_key h1 filters type) content w = (Inr d, w)
           \<and> dict_get rt d (apply_key h2 filters type) w = (Inr content, w)"
    by (rule dict_set_then_get)
qed

text \<open>
  The theorem on the file \<open>a.css\<close> and a \<open>MemoryHunk\<close> of the same content with another
  list of files.
\<close>

theorem equal_data_equal_hunks_and_keys_witness:
  "BaseHunk_eq example_runtime (FileHunk ''a.css'')
     (MemoryHunk (Data (VStr ''a{color:red}'')) [''b.css'']) (example_world no_network VNone)
   = (Inr True, example_world no_network VNone)
   \<and> key_eq example_runtime (apply_key (FileHunk ''a.css'') [cssmin, less_f] ''output'')
       (apply_key (MemoryHunk (Data (VStr ''a{color:red}'')) [''b.css'']) [cssmin, less_f] ''output'')
       (example_world no_network VNone)
   = (Inr True, example_world no_network VNone)
   \<and> (\<exists>d. dict_set example_runtime [] (apply_key (FileHunk ''a.css'') [cssmin, less_f] ''output'')
            (VStr ''min'') (example_world no_network VNone)
          = (Inr d, example_world no_network VNone)
        \<and> dict_get example_runtime d
            (apply_key (MemoryHunk (Data (VStr ''a{color:red}'')) [''b.css''])
               [cssmin, less_f] ''output'')
            (example_world no_network VNone)
          = (Inr (VStr ''min''), example_world no_network VNone))"
proof -
  let ?w = "example_world no_network VNone"
  have d1: "data example_runtime (FileHunk ''a.css'') ?w = (Inr (VStr ''a{color:red}''), ?w)"
    by (simp add: example_world_def example_runtime_def)
  have d2: "data example_runtime (MemoryHunk (Data (VStr ''a{color:red}'')) [''b.css'']) ?w
      = (Inr (VStr ''a{color:red}''), ?w)"
    by (simp add: ok_apply)
  show ?thesis
    using equal_data_equal_hunks_and_keys
      [of example_runtime "FileHunk ''a.css''" ?w "VStr ''a{color:red}''" ?w
          "MemoryHunk (Data (VStr ''a{color:red}'')) [''b.css'']" ?w "[cssmin, less_f]" "''output''"
          "VStr ''min''"]
      d1 d2
    by simp
qed

section \<open>Merging hunks: theorems\<close>

text \<open>
  When the hunks can be read one after the other, \<open>merge\<close> returns the join of their
  texts and leaves the world the reads leave. Hunks whose \<open>data()\<close> is repeatable (a
  file, a value in memory, a URL already fetched) can be read in any order.
\<close>

lemma strings_of_VStr: "strings_of (map VStr xs) = Some xs"
  by (induction xs) simp_all

lemma merge_loop_read_texts:
  "read_texts rt hunks w = Some (texts, w') \<Longrightarrow>
   merge_loop rt hunks tmp w = (Inr (tmp @ map VStr texts), w')"
proof (induction hunks arbitrary: tmp w texts)
  case Nil
  then show ?case by (simp add: ok_apply)
next
  case (Cons h hunks)
  obtain r w1 where d: "data rt h w = (r, w1)"
    by (cases "data rt h w")
  from Cons.prems d obtain s ts where
    s: "r = Inr (VStr s) \<or> (\<exists>b. r = Inr (VBytes b) \<and> decode rt b = Some s)"
    and ts: "read_texts rt hunks w1 = Some (ts, w')" "texts = s # ts"
    by (auto split: sum.splits pyval.splits option.splits)
  from Cons.IH[OF ts(1), of "tmp @ [VStr s]"] s d ts(2) show ?case
    by (auto simp: and_then_apply)
qed

lemma merge_read_texts:
  "read_texts rt hunks w = Some (texts, w') \<Longrightarrow>
   merge rt hunks separator w =
     (Inr (MemoryHunk (Data (VStr (join
        (case separator of None \<Rightarrow> [CHR 0x0A] | Some s \<Rightarrow> if s = [] then [CHR 0x0A] else s)
        texts))) []), w')"
  using merge_loop_read_texts[of rt hunks w texts w' "[]"]
  by (simp add: merge_def and_then_apply str_join_def ok_apply Let_def strings_of_VStr)

lemma read_texts_repeatable:
  "(\<forall>h \<in> set hunks.
      data rt h w = (Inr (VStr (content h)), w) \<or>
      (\<exists>b. data rt h w = (Inr (VBytes b), w) \<and> decode rt b = Some (content h))) \<Longrightarrow>
   read_texts rt hunks w = Some (map content hunks, w)"
  by (induction hunks) auto

lemma read_texts_append:
  "read_texts rt (xs @ ys) w =
     (case read_texts rt xs w of
        None \<Rightarrow> None
      | Some (ts, w1) \<Rightarrow> map_option (\<lambda>(ts', w'). (ts @ ts', w')) (read_texts rt ys w1))"
proof (induction xs arbitrary: w)
  case Nil
  show ?case by (simp add: option.map_ident case_prod_unfold)
next
  case (Cons h xs)
  show ?case
    by (auto simp: Cons.IH option.map_comp comp_def case_prod_unfold
        split: prod.splits sum.splits pyval.splits option.splits)
qed

text \<open>
  C5, as the claim states it, fails for the empty separator: \<^verbatim>\<open>if not separator\<close>
  replaces it by a newline, so merging \<open>a\<close> and \<open>b\<close> with the separator \<open>''\<close> gives
  \<open>a\<close>, a newline and \<open>b\<close>, not \<open>ab\<close>.
\<close>

theorem merge_empty_separator_counterexample:
  "merge example_runtime
     [MemoryHunk (Data (VStr ''a'')) [], MemoryHunk (Data (VStr ''b'')) []] (Some [])
     (example_world no_network VNone)
   = (Inr (MemoryHunk (Data (VStr [CHR ''a'', CHR 0x0A, CHR ''b''])) []),
      example_world no_network VNone)
   \<and> [CHR ''a'', CHR 0x0A, CHR ''b''] \<noteq> ''a'' @ [] @ ''b''"
  by (simp add: merge_def and_then_apply ok_apply str_join_def)

text \<open>
  C5, amended. For every list of hunks whose \<open>data()\<close>, read in order, return text or
  bytes that decode (files, values in memory, streams, URLs), \<open>merge hunks s\<close> returns a
  new \<open>MemoryHunk\<close> whose \<open>data()\<close> is these texts, in order, joined by \<open>s\<close> when \<open>s\<close>
  is a non-empty string, and joined by a newline when no separator is given or the
  separator is empty; for two hunks of contents \<open>c1\<close> and \<open>c2\<close> the join is
  \<open>c1 @ s @ c2\<close>. Hunks whose \<open>data()\<close> is repeatable are read so.
\<close>

theorem merge_joins_with_separator:
  "read_texts rt hunks w = Some (texts, w') \<longrightarrow>
     (s \<noteq> [] \<longrightarrow>
        merge rt hunks (Some s) w = (Inr (MemoryHunk (Data (VStr (join s texts))) []), w'))
   \<and> merge rt hunks None w =
        (Inr (MemoryHunk (Data (VStr (join [CHR 0x0A] texts))) []), w')
   \<and> merge rt hunks (Some []) w =
        (Inr (MemoryHunk (Data (VStr (join [CHR 0x0A] texts))) []), w')
   \<and> data rt (MemoryHunk (Data (VStr (join s texts))) []) w' = (Inr (VStr (join s texts)), w')
   \<and> join s [c1, c2] = c1 @ s @ c2
   \<and> ((\<forall>h \<in> set hunks.
          data rt h w = (Inr (VStr (content h)), w) \<or>
          (\<exists>b. data rt h w = (Inr (VBytes b), w) \<and> decode rt b = Some (content h))) \<longrightarrow>
        read_texts rt hunks w = Some (map content hunks, w))"
proof (intro conjI impI)
  assume a: "read_texts rt hunks w = Some (texts, w')"
  show "merge rt hunks (Some s) w = (Inr (MemoryHunk (Data (VStr (join s texts))) []), w')"
    if "s \<noteq> []"
    using merge_read_texts[OF a, of "Some s"] that by simp
  show "merge rt hunks None w = (Inr (MemoryHunk (Data (VStr (join [CHR 0x0A] texts))) []), w')"
    using merge_read_texts[OF a, of None] by simp
  show "merge rt hunks (Some []) w =
      (Inr (MemoryHunk (Data (VStr (join [CHR 0x0A] texts))) []), w')"
    using merge_read_texts[OF a, of "Some []"] by simp
  show "data rt (MemoryHunk (Data (VStr (join s texts))) []) w' = (Inr (VStr (join s texts)), w')"
    by (simp add: ok_apply)
  show "join s [c1, c2] = c1 @ s @ c2"
    by simp
  show "read_texts rt hunks w = Some (map content hunks, w)"
    if "\<forall>h \<in> set hunks.
          data rt h w = (Inr (VStr (content h)), w) \<or>
          (\<exists>b. data rt h w = (Inr (VBytes b), w) \<and> decode rt b = Some (content h))"
    using that by (rule read_texts_repeatable)
qed

text \<open>
  The amended theorem on a file, a stream and bytes in memory, joined by a comma and a
  space; the stream is left empty.
\<close>

theorem merge_joins_with_separator_witness:
  "merge example_runtime
     [FileHunk ''a.css'', MemoryHunk (Reader 0) [], MemoryHunk (Data (VBytes ''b{}'')) []]
     (Some '', '') (example_world no_network VNone)
   = (Inr (MemoryHunk (Data (VStr ''a{color:red}, a{color:red}, b{}'')) []),
      (example_world no_network VNone)
        \<lparr>readers := (readers (example_world no_network VNone))(0 := StringIO [])\<rparr>)"
proof -
  let ?w = "example_world no_network VNone"
  let ?hs = "[FileHunk ''a.css'', MemoryHunk (Reader 0) [], MemoryHunk (Data (VBytes ''b{}'')) []]"
  have r: "read_texts example_runtime ?hs ?w
      = Some ([''a{color:red}'', ''a{color:red}'', ''b{}''],
              ?w\<lparr>readers := (readers ?w)(0 := StringIO [])\<rparr>)"
    by (simp add: example_world_def example_runtime_def ok_apply)
  have "merge example_runtime ?hs (Some '', '') ?w
      = (Inr (MemoryHunk (Data (VStr (join '', ''
            [''a{color:red}'', ''a{color:red}'', ''b{}'']))) []),
         ?w\<lparr>readers := (readers ?w)(0 := StringIO [])\<rparr>)"
    by (rule merge_joins_with_separator
          [where s = "'', ''", THEN mp, OF r, THEN conjunct1, THEN mp]) simp
  then show ?thesis by simp
qed

text \<open>
  C9, as the claim states it, fails for hunks that share a stream: the grouping on the
  right reads \<open>h3\<close> before \<open>h1\<close>, so the hunk that finds the stream unread differs, and
  the two groupings differ.
\<close>

theorem merge_shared_stream_counterexample:
  "and_then (merge example_runtime
        [MemoryHunk (Reader 0) [''one.css''], MemoryHunk (Data (VStr ''b'')) []] None)
     (\<lambda>m. and_then (merge example_runtime [m, MemoryHunk (Reader 0) [''two.css'']] None)
        (data example_runtime))
     (example_world no_network VNone)
   = (Inr (VStr (''a{color:red}'' @ [CHR 0x0A] @ ''b'' @ [CHR 0x0A])),
      (example_world no_network VNone)
        \<lparr>readers := (readers (example_world no_network VNone))(0 := StringIO [])\<rparr>)
   \<and> and_then (merge example_runtime
        [MemoryHunk (Data (VStr ''b'')) [], MemoryHunk (Reader 0) [''two.css'']] None)
     (\<lambda>m. and_then (merge example_runtime [MemoryHunk (Reader 0) [''one.css''], m] None)
        (data example_runtime))
     (example_world no_network VNone)
   = (Inr (VStr ([CHR 0x0A] @ ''b'' @ [CHR 0x0A] @ ''a{color:red}'')),
      (example_world no_network VNone)
        \<lparr>readers := (readers (example_world no_network VNone))(0 := StringIO [])\<rparr>)
   \<and> ''a{color:red}'' @ [CHR 0x0A] @ ''b'' @ [CHR 0x0A]
      \<noteq> [CHR 0x0A] @ ''b'' @ [CHR 0x0A] @ ''a{color:red}''"
  by (simp add: merge_def and_then_apply ok_apply str_join_def example_world_def)

lemma read_texts_length:
  "read_texts rt hunks w = Some (texts, w') \<Longrightarrow> length texts = length hunks"
  by (induction hunks arbitrary: w texts)
     (auto split: prod.splits sum.splits pyval.splits option.splits)

lemma read_texts_three:
  assumes "read_texts rt [a, b, c] w = Some ([x, y, z], w')"
  shows "\<exists>w1. read_texts rt [a, b] w = Some ([x, y], w1) \<and> read_texts rt [c] w1 = Some ([z], w')"
proof -
  have "read_texts rt ([a, b] @ [c]) w = Some ([x, y, z], w')"
    using assms by simp
  then obtain ts w1 ts' where t: "read_texts rt [a, b] w = Some (ts, w1)"
    "read_texts rt [c] w1 = Some (ts', w')" "ts @ ts' = [x, y, z]"
    by (auto simp only: read_texts_append split: option.splits prod.splits)
  from read_texts_length[OF t(1)] read_texts_length[OF t(2)] t(3)
  have "ts = [x, y]" "ts' = [z]"
    by (auto simp: append_eq_Cons_conv length_Suc_conv)
  with t show ?thesis by blast
qed

lemma read_texts_memory:
  "read_texts rt [h] w = Some ([x], w') \<Longrightarrow>
     read_texts rt [MemoryHunk (Data (VStr t)) fs, h] w = Some ([t, x], w')"
  "read_texts rt [h] w = Some ([x], w') \<Longrightarrow>
     read_texts rt [h, MemoryHunk (Data (VStr t)) fs] w = Some ([x, t], w')"
  by (auto simp: ok_apply split: option.splits prod.splits sum.splits pyval.splits)

text \<open>
  C9, amended. For a fixed separator and hunks \<open>h1\<close>, \<open>h2\<close>, \<open>h3\<close> whose \<open>data()\<close>
  return the same texts \<open>c1\<close>, \<open>c2\<close>, \<open>c3\<close> whether they are read in the order
  \<open>h1\<close>, \<open>h2\<close>, \<open>h3\<close> or in the order \<open>h2\<close>, \<open>h3\<close>, \<open>h1\<close> (as hunks of repeatable
  \<open>data()\<close> and hunks on streams of their own do), the three groupings have the same
  \<open>data()\<close>, the join of \<open>c1\<close>, \<open>c2\<close>, \<open>c3\<close>: merging the merge of \<open>h1\<close> and \<open>h2\<close> with
  \<open>h3\<close>, merging \<open>h1\<close> with the merge of \<open>h2\<close> and \<open>h3\<close>, and merging the three at
  once. The inner merge is evaluated first, as an argument of the outer one.
\<close>

theorem merge_is_associative:
  "read_texts rt [h1, h2, h3] w = Some ([c1, c2, c3], w') \<and>
   read_texts rt [h2, h3, h1] w = Some ([c2, c3, c1], w'') \<longrightarrow>
     and_then (merge rt [h1, h2] separator) (\<lambda>m.
       and_then (merge rt [m, h3] separator) (data rt)) w
       = (Inr (VStr (join (case separator of None \<Rightarrow> [CHR 0x0A]
                           | Some s \<Rightarrow> if s = [] then [CHR 0x0A] else s) [c1, c2, c3])), w')
   \<and> and_then (merge rt [h2, h3] separator) (\<lambda>m.
       and_then (merge rt [h1, m] separator) (data rt)) w
       = (Inr (VStr (join (case separator of None \<Rightarrow> [CHR 0x0A]
                           | Some s \<Rightarrow> if s = [] then [CHR 0x0A] else s) [c1, c2, c3])), w'')
   \<and> and_then (merge rt [h1, h2, h3] separator) (data rt) w
       = (Inr (VStr (join (case separator of None \<Rightarrow> [CHR 0x0A]
                           | Some s \<Rightarrow> if s = [] then [CHR 0x0A] else s) [c1, c2, c3])), w')
   \<and> ((\<forall>h \<in> {h1, h2, h3}.
          data rt h w = (Inr (VStr (content h)), w) \<or>
          (\<exists>b. data rt h w = (Inr (VBytes b), w) \<and> decode rt b = Some (content h))) \<longrightarrow>
        read_texts rt [h1, h2, h3] w = Some ([content h1, content h2, content h3], w) \<and>
        read_texts rt [h2, h3, h1] w = Some ([content h2, content h3, content h1], w))"
proof (intro impI conjI)
  let ?sep = "case separator of None \<Rightarrow> [CHR 0x0A] | Some s \<Rightarrow> if s = [] then [CHR 0x0A] else s"
  assume a: "read_texts rt [h1, h2, h3] w = Some ([c1, c2, c3], w') \<and>
   read_texts rt [h2, h3, h1] w = Some ([c2, c3, c1], w'')"
  then obtain wa where l: "read_texts rt [h1, h2] w = Some ([c1, c2], wa)"
      "read_texts rt [h3] wa = Some ([c3], w')"
    using read_texts_three by blast
  from a obtain wb where r: "read_texts rt [h2, h3] w = Some ([c2, c3], wb)"
      "read_texts rt [h1] wb = Some ([c1], w'')"
    using read_texts_three by blast
  have m12: "merge rt [h1, h2] separator w
      = (Inr (MemoryHunk (Data (VStr (join ?sep [c1, c2]))) []), wa)"
    by (rule merge_read_texts[OF l(1)])
  have m12_3: "merge rt [MemoryHunk (Data (VStr (join ?sep [c1, c2]))) [], h3] separator wa
      = (Inr (MemoryHunk (Data (VStr (join ?sep [join ?sep [c1, c2], c3]))) []), w')"
    by (rule merge_read_texts[OF read_texts_memory(1)[OF l(2)]])
  show "and_then (merge rt [h1, h2] separator) (\<lambda>m.
       and_then (merge rt [m, h3] separator) (data rt)) w
       = (Inr (VStr (join ?sep [c1, c2, c3])), w')"
    by (simp only: and_then_apply m12 m12_3 prod.case sum.case) (simp add: ok_apply)
  have m23: "merge rt [h2, h3] separator w
      = (Inr (MemoryHunk (Data (VStr (join ?sep [c2, c3]))) []), wb)"
    by (rule merge_read_texts[OF r(1)])
  have m1_23: "merge rt [h1, MemoryHunk (Data (VStr (join ?sep [c2, c3]))) []] separator wb
      = (Inr (MemoryHunk (Data (VStr (join ?sep [c1, join ?sep [c2, c3]]))) []), w'')"
    by (rule merge_read_texts[OF read_texts_memory(2)[OF r(2)]])
  show "and_then (merge rt [h2, h3] separator) (\<lambda>m.
       and_then (merge rt [h1, m] separator) (data rt)) w
       = (Inr (VStr (join ?sep [c1, c2, c3])), w'')"
    by (simp only: and_then_apply m23 m1_23 prod.case sum.case) (simp add: ok_apply)
  from a have "merge rt [h1, h2, h3] separator w
      = (Inr (MemoryHunk (Data (VStr (join ?sep [c1, c2, c3]))) []), w')"
    by (intro merge_read_texts) simp
  then show "and_then (merge rt [h1, h2, h3] separator) (data rt) w
       = (Inr (VStr (join ?sep [c1, c2, c3])), w')"
    by (simp add: and_then_apply ok_apply)
next
  assume p: "\<forall>h \<in> {h1, h2, h3}.
          data rt h w = (Inr (VStr (content h)), w) \<or>
          (\<exists>b. data rt h w = (Inr (VBytes b), w) \<and> decode rt b = Some (content h))"
  show "read_texts rt [h1, h2, h3] w = Some ([content h1, content h2, content h3], w)"
    using read_texts_repeatable[of "[h1, h2, h3]" rt w content] p by simp
  show "read_texts rt [h2, h3, h1] w = Some ([content h2, content h3, content h1], w)"
    using read_texts_repeatable[of "[h2, h3, h1]" rt w content] p by simp
qed

text \<open>
  The amended theorem on a file, a stream and bytes in memory.
\<close>

theorem merge_is_associative_witness:
  "and_then (merge example_runtime [FileHunk ''a.css'', MemoryHunk (Reader 0) []] None)
     (\<lambda>m. and_then (merge example_runtime [m, MemoryHunk (Data (VBytes ''b{}'')) []] None)
        (data example_runtime)) (example_world no_network VNone)
   = (Inr (VStr (''a{color:red}'' @ [CHR 0x0A] @ ''a{color:red}'' @ [CHR 0x0A] @ ''b{}'')),
      (example_world no_network VNone)
        \<lparr>readers := (readers (example_world no_network VNone))(0 := StringIO [])\<rparr>)
   \<and> and_then (merge example_runtime
        [MemoryHunk (Reader 0) [], MemoryHunk (Data (VBytes ''b{}'')) []] None)
     (\<lambda>m. and_then (merge example_runtime [FileHunk ''a.css'', m] None)
        (data example_runtime)) (example_world no_network VNone)
   = (Inr (VStr (''a{color:red}'' @ [CHR 0x0A] @ ''a{color:red}'' @ [CHR 0x0A] @ ''b{}'')),
      (example_world no_network VNone)
        \<lparr>readers := (readers (example_world no_network VNone))(0 := StringIO [])\<rparr>)
   \<and> and_then (merge example_runtime
        [FileHunk ''a.css'', MemoryHunk (Reader 0) [], MemoryHunk (Data (VBytes ''b{}'')) []] None)
       (data example_runtime) (example_world no_network VNone)
   = (Inr (VStr (''a{color:red}'' @ [CHR 0x0A] @ ''a{color:red}'' @ [CHR 0x0A] @ ''b{}'')),
      (example_world no_network VNone)
        \<lparr>readers := (readers (example_world no_network VNone))(0 := StringIO [])\<rparr>)"
proof -
  let ?w = "example_world no_network VNone"
  let ?w' = "?w\<lparr>readers := (readers ?w)(0 := StringIO [])\<rparr>"
  let ?h1 = "FileHunk ''a.css''"
  let ?h2 = "MemoryHunk (Reader 0) []"
  let ?h3 = "MemoryHunk (Data (VBytes ''b{}'')) []"
  have r1: "read_texts example_runtime [?h1, ?h2, ?h3] ?w
      = Some ([''a{color:red}'', ''a{color:red}'', ''b{}''], ?w')"
    by (simp add: example_world_def example_runtime_def ok_apply)
  have r2: "read_texts example_runtime [?h2, ?h3, ?h1] ?w
      = Some ([''a{color:red}'', ''b{}'', ''a{color:red}''], ?w')"
    by (simp add: example_world_def example_runtime_def ok_apply)
  note t = merge_is_associative[where separator = None, THEN mp, OF conjI[OF r1 r2]]
  from t[THEN conjunct1] t[THEN conjunct2, THEN conjunct1]
    t[THEN conjunct2, THEN conjunct2, THEN conjunct1]
  show ?thesis by simp
qed

section \<open>UrlHunk and the cache of the environment\<close>

text \<open>
  The first \<open>data()\<close> of a \<open>UrlHunk\<close> whose environment has a cache, with nothing cached
  for the URL. When the headers of the response have no \<^verbatim>\<open>getheader\<close>, line 122
  raises \<^verbatim>\<open>AttributeError\<close> after the body is memoized and before anything is
  stored; when they have one, the validators and the body are stored under the URL.
\<close>

lemma UrlHunk_first_fetch_without_getheader:
  "url_memo w i = None \<Longrightarrow> env_cache w (headers_key url) = None \<Longrightarrow>
   urlopen w \<lparr>req_url = url, req_headers = []\<rparr> = Inr resp \<Longrightarrow>
   headers_getheader resp = None \<Longrightarrow>
   UrlHunk_data i url (Some (Environment True)) w =
     (Inl AttributeError, w\<lparr>url_memo := (url_memo w)(i \<mapsto> VBytes (body resp))\<rparr>)"
  by (simp add: UrlHunk_data_def conditional_headers_def and_then_apply env_cache_get_def
      ok_apply raise_apply set_url_memo_def)

lemma UrlHunk_first_fetch_with_getheader:
  "url_memo w i = None \<Longrightarrow> env_cache w (headers_key url) = None \<Longrightarrow>
   urlopen w \<lparr>req_url = url, req_headers = []\<rparr> = Inr resp \<Longrightarrow>
   headers_getheader resp = Some getheader \<Longrightarrow>
   UrlHunk_data i url (Some (Environment True)) w =
     (Inr (VBytes (body resp)),
      w\<lparr>url_memo := (url_memo w)(i \<mapsto> VBytes (body resp)),
        env_cache := (env_cache w)
          (headers_key url \<mapsto> VTuple [getheader ''ETag'', getheader ''Last-Modified''],
           contents_key url \<mapsto> VBytes (body resp))\<rparr>)"
  by (simp add: UrlHunk_data_def conditional_headers_def and_then_apply env_cache_get_def
      env_cache_set_def ok_apply raise_apply set_url_memo_def)

text \<open>
  A later fetch by another \<open>UrlHunk\<close> object: with validators in the cache the request
  is conditional, and on a 304 the data is what the cache holds for the contents of the
  URL. Every other error of \<^verbatim>\<open>urlopen\<close> leaves \<open>data()\<close> as it is.
\<close>

lemma UrlHunk_not_modified:
  "url_memo w i = None \<Longrightarrow>
   env_cache w (headers_key url) = Some (VTuple [VStr etag, VStr lmod]) \<Longrightarrow>
   etag \<noteq> [] \<Longrightarrow> lmod \<noteq> [] \<Longrightarrow>
   urlopen w \<lparr>req_url = url,
              req_headers = [(''If-None-Match'', VStr etag), (''If-Modified-Since'', VStr lmod)]\<rparr>
     = Inl (HTTPError 304) \<Longrightarrow>
   env_cache w (contents_key url) = Some cached \<Longrightarrow>
   UrlHunk_data i url (Some (Environment True)) w =
     (Inr cached, w\<lparr>url_memo := (url_memo w)(i \<mapsto> cached)\<rparr>)"
  by (simp add: UrlHunk_data_def conditional_headers_def and_then_apply env_cache_get_def
      ok_apply raise_apply set_url_memo_def)

lemma UrlHunk_error_propagates:
  "url_memo w i = None \<Longrightarrow>
   conditional_headers (case env of None \<Rightarrow> False | Some e \<Rightarrow> env_has_cache e) url w
     = (Inr hs, w) \<Longrightarrow>
   urlopen w \<lparr>req_url = url, req_headers = hs\<rparr> = Inl e \<Longrightarrow> e \<noteq> HTTPError 304 \<Longrightarrow>
   UrlHunk_data i url env w = (Inl e, w)"
  by (cases e) (simp_all add: UrlHunk_data_def and_then_apply)

text \<open>
  C8 at a response of Python 3 (\<^verbatim>\<open>urllib.request.urlopen\<close> returns headers of class
  \<^verbatim>\<open>http.client.HTTPMessage\<close>, which has \<^verbatim>\<open>get\<close> but no \<^verbatim>\<open>getheader\<close>): the
  first \<open>data()\<close> of a \<open>UrlHunk\<close> with a cache in its environment raises
  \<^verbatim>\<open>AttributeError\<close>, and the cache holds neither the validators nor the body.
\<close>

theorem UrlHunk_first_fetch_raises_on_python3:
  "data example_runtime (UrlHunk 7 ''http://cdn/x.css'' (Some (Environment True)))
     (example_world python3_network VNone)
   = (Inl AttributeError,
      (example_world python3_network VNone)\<lparr>url_memo := [7 \<mapsto> VBytes ''body{}'']\<rparr>)
   \<and> env_cache ((example_world python3_network VNone)\<lparr>url_memo := [7 \<mapsto> VBytes ''body{}'']\<rparr>)
      = Map.empty"
proof -
  let ?w = "example_world python3_network VNone"
  have "UrlHunk_data 7 ''http://cdn/x.css'' (Some (Environment True)) ?w =
     (Inl AttributeError,
      ?w\<lparr>url_memo := (url_memo ?w)(7 \<mapsto> VBytes (body \<lparr>body = ''body{}'', headers_getheader = None\<rparr>))\<rparr>)"
    by (rule UrlHunk_first_fetch_without_getheader)
       (simp_all add: example_world_def python3_network_def)
  then show ?thesis
    by (simp add: example_world_def)
qed

end
